theory Spec2Isabelle
  imports Main
begin

section \<open>Timed histogram scopes of src/logging/counters-scopes.h\<close>

text \<open>
  The header defines five scoped helpers around a \<^verbatim>\<open>TimedHistogram\<close>: the plain, the
  optional and the lazy scope (all built on \<^verbatim>\<open>BaseTimedHistogramScope\<close>), the nested scope,
  which takes part in the per-histogram stack of running scopes, and the pause scope.
  A constructor and a destructor become two functions; objects that other objects point
  to (histograms, nested scopes) live in a store indexed by their address.

  The model is the release build: \<^verbatim>\<open>DCHECK\<close> and \<^verbatim>\<open>#ifdef DEBUG\<close> lines compile to nothing.
  Times (\<^verbatim>\<open>base::TimeTicks\<close>) and durations (\<^verbatim>\<open>base::TimeDelta\<close>) are counted in
  microseconds, as unbounded integers.
\<close>

subsection \<open>Collaborators declared in other headers\<close>

text \<open>
  Histograms, nested scope objects and isolates are referred to by address; a pointer that
  may be null is an \<open>option\<close>, and dereferencing null is the one failure of the model.
  Members keep their names without the trailing underscore (\<^verbatim>\<open>timer_\<close> is \<open>timer\<close>);
  member functions that several classes define carry the class as a prefix.
\<close>

type_synonym ticks = int
type_synonym hid = nat
type_synonym sid = nat
type_synonym isolate = nat

datatype error = NullDereference

text \<open>
  Modelled from the spec: \<^verbatim>\<open>base::ElapsedTimer\<close>, which the header uses and another
  header declares. The spec describes a timer value as an accumulated elapsed
  duration plus a running/paused state, where a paused timer does not advance and resuming
  restarts advancement from the resume instant; elapsed time is (now - running start)
  accumulated across pause/resume cycles. \<open>Advancing start acc\<close> is a timer running since
  \<open>start\<close> with \<open>acc\<close> accumulated before, \<open>Paused acc\<close> a paused one.
  The spec gives no meaning to pausing a timer that is not advancing, to resuming a timer
  that is not paused, or to the elapsed time of a stopped timer: the model leaves the
  timer unchanged in the first two cases and answers 0 in the third.
\<close>

datatype ElapsedTimer = Stopped | Advancing ticks ticks | Paused ticks

fun timer_Start :: "ticks \<Rightarrow> ElapsedTimer \<Rightarrow> ElapsedTimer" where
  "timer_Start now t = Advancing now 0"

fun timer_Pause :: "ticks \<Rightarrow> ElapsedTimer \<Rightarrow> ElapsedTimer" where
  "timer_Pause now (Advancing start acc) = Paused (acc + (now - start))"
| "timer_Pause now t = t"

fun timer_Resume :: "ticks \<Rightarrow> ElapsedTimer \<Rightarrow> ElapsedTimer" where
  "timer_Resume now (Paused acc) = Advancing now acc"
| "timer_Resume now t = t"

fun timer_Elapsed :: "ticks \<Rightarrow> ElapsedTimer \<Rightarrow> ticks" where
  "timer_Elapsed now (Advancing start acc) = acc + (now - start)"
| "timer_Elapsed now (Paused acc) = acc"
| "timer_Elapsed now Stopped = 0"

fun timer_Stop :: "ElapsedTimer \<Rightarrow> ElapsedTimer" where
  "timer_Stop t = Stopped"

fun is_advancing :: "ElapsedTimer \<Rightarrow> bool" where
  "is_advancing (Advancing start acc) = True"
| "is_advancing t = False"

fun is_paused :: "ElapsedTimer \<Rightarrow> bool" where
  "is_paused (Paused acc) = True"
| "is_paused t = False"

text \<open>
  Modelled from the spec: \<^verbatim>\<open>TimedHistogram\<close> and \<^verbatim>\<open>NestedTimedHistogram\<close>
  (src/logging/counters.h). A histogram has a name, an enabled flag that the scopes only
  read, the completed samples it has recorded (\<open>addSample(duration)\<close>), and, for the nested
  family, the nullable current top of its scope stack.
\<close>

record TimedHistogram =
  name :: string
  Enabled :: bool
  samples :: "ticks list"
  current :: "sid option"

datatype LogEventStatus = kStart | kEnd

type_synonym log_event = "isolate option \<times> string \<times> LogEventStatus"

datatype LongTaskRecordMode = kSkip | kRecord

text \<open>
  A \<^verbatim>\<open>NestedTimedHistogramScope\<close> object: the two members inherited from the base class and
  its own two. The histogram pointer of a nested scope is taken to be valid (the
  constructor's argument is a histogram of the store).
\<close>

record NestedTimedHistogramScope =
  timer :: ElapsedTimer
  histogram :: hid
  previous_scope :: "sid option"
  long_task_record_mode :: LongTaskRecordMode

text \<open>
  Modelled from the spec: the long-task aggregate, a per-context counter that supports
  \<open>add(duration)\<close>, and the designated primary-execution histogram. In the header these
  are \<^verbatim>\<open>isolate()->GetCurrentLongTaskStats()->v8_execute_us\<close> and \<^verbatim>\<open>counters()->execute()\<close>
  of the \<^verbatim>\<open>Counters\<close> object that owns the histograms; \<^verbatim>\<open>counters()->isolate()\<close> is its
  isolate. They are fields of the state that the scopes read and write, next to the
  monotonic clock, the histograms and the nested scope objects by address, and the calls
  made to \<^verbatim>\<open>Logger::CallEventLogger\<close>.
\<close>

record state =
  clock :: ticks
  histograms :: "hid \<Rightarrow> TimedHistogram"
  scopes :: "sid \<Rightarrow> NestedTimedHistogramScope"
  log :: "log_event list"
  execute :: hid
  counters_isolate :: isolate
  v8_execute_us :: int

text \<open>Modelled from the spec: the clock, \<open>now() -> monotonic timestamp\<close>.\<close>

definition HighResolutionNow :: "state \<Rightarrow> ticks" where
  "HighResolutionNow s = clock s"

text \<open>Modelled from the spec: \<open>addSample(duration)\<close> records a completed sample.\<close>

definition AddTimedSample :: "hid \<Rightarrow> ticks \<Rightarrow> state \<Rightarrow> state" where
  "AddTimedSample h d s =
     s\<lparr>histograms := (histograms s)(h := (histograms s h)\<lparr>samples := samples (histograms s h) @ [d]\<rparr>)\<rparr>"

text \<open>
  Modelled from the spec: the scope stack of a histogram, \<open>Enter\<close> (push, returns the
  previous top) and \<open>Leave\<close> (pop to a given previous top).
\<close>

definition Enter :: "hid \<Rightarrow> sid option \<Rightarrow> state \<Rightarrow> sid option \<times> state" where
  "Enter h nxt s =
     (current (histograms s h),
      s\<lparr>histograms := (histograms s)(h := (histograms s h)\<lparr>current := nxt\<rparr>)\<rparr>)"

definition Leave :: "hid \<Rightarrow> sid option \<Rightarrow> state \<Rightarrow> state" where
  "Leave h previous s =
     s\<lparr>histograms := (histograms s)(h := (histograms s h)\<lparr>current := previous\<rparr>)\<rparr>"

text \<open>
  Modelled from the spec: the event logger, \<open>onEvent(contextHandle, name, status)\<close>,
  fire-and-forget. A call of \<^verbatim>\<open>Logger::CallEventLogger(isolate, name, status, true)\<close> is
  recorded with the isolate pointer it was given; what the sink does with it is not part of
  this header.
\<close>

definition CallEventLogger :: "isolate option \<Rightarrow> string \<Rightarrow> LogEventStatus \<Rightarrow> state \<Rightarrow> state" where
  "CallEventLogger isol n st s = s\<lparr>log := log s @ [(isol, n, st)]\<rparr>"

subsection \<open>BaseTimedHistogramScope\<close>

record BaseTimedHistogramScope =
  base_timer :: ElapsedTimer
  base_histogram :: "hid option"

definition Base_ctor :: "hid option \<Rightarrow> BaseTimedHistogramScope" where
  "Base_ctor h = \<lparr>base_timer = Stopped, base_histogram = h\<rparr>"

definition Base_StartInternal :: "BaseTimedHistogramScope \<Rightarrow> state \<Rightarrow> BaseTimedHistogramScope" where
  "Base_StartInternal b s = b\<lparr>base_timer := timer_Start (HighResolutionNow s) (base_timer b)\<rparr>"

definition Base_StopInternal ::
  "BaseTimedHistogramScope \<Rightarrow> state \<Rightarrow> error + (BaseTimedHistogramScope \<times> state)" where
  "Base_StopInternal b s =
     (case base_histogram b of
        None \<Rightarrow> Inl NullDereference
      | Some h \<Rightarrow>
          Inr (b\<lparr>base_timer := timer_Stop (base_timer b)\<rparr>,
               AddTimedSample h (timer_Elapsed (HighResolutionNow s) (base_timer b)) s))"

definition Base_Start :: "BaseTimedHistogramScope \<Rightarrow> state \<Rightarrow> error + BaseTimedHistogramScope" where
  "Base_Start b s =
     (case base_histogram b of
        None \<Rightarrow> Inl NullDereference
      | Some h \<Rightarrow> Inr (if Enabled (histograms s h) then Base_StartInternal b s else b))"

definition Base_Stop ::
  "BaseTimedHistogramScope \<Rightarrow> state \<Rightarrow> error + (BaseTimedHistogramScope \<times> state)" where
  "Base_Stop b s =
     (case base_histogram b of
        None \<Rightarrow> Inl NullDereference
      | Some h \<Rightarrow> if Enabled (histograms s h) then Base_StopInternal b s else Inr (b, s))"

definition Base_LogStart :: "BaseTimedHistogramScope \<Rightarrow> isolate option \<Rightarrow> state \<Rightarrow> error + state" where
  "Base_LogStart b isol s =
     (case base_histogram b of
        None \<Rightarrow> Inl NullDereference
      | Some h \<Rightarrow> Inr (CallEventLogger isol (name (histograms s h)) kStart s))"

definition Base_LogEnd :: "BaseTimedHistogramScope \<Rightarrow> isolate option \<Rightarrow> state \<Rightarrow> error + state" where
  "Base_LogEnd b isol s =
     (case base_histogram b of
        None \<Rightarrow> Inl NullDereference
      | Some h \<Rightarrow> Inr (CallEventLogger isol (name (histograms s h)) kEnd s))"

subsection \<open>TimedHistogramScope\<close>

record TimedHistogramScope =
  base :: BaseTimedHistogramScope
  isolate :: "isolate option"

definition TimedHistogramScope_ctor ::
  "hid option \<Rightarrow> isolate option \<Rightarrow> state \<Rightarrow> error + (TimedHistogramScope \<times> state)" where
  "TimedHistogramScope_ctor h isol s =
     (case Base_Start (Base_ctor h) s of
        Inl e \<Rightarrow> Inl e
      | Inr b \<Rightarrow>
          (if isol \<noteq> None
           then (case Base_LogStart b isol s of
                   Inl e \<Rightarrow> Inl e
                 | Inr s' \<Rightarrow> Inr (\<lparr>base = b, isolate = isol\<rparr>, s'))
           else Inr (\<lparr>base = b, isolate = isol\<rparr>, s)))"

definition TimedHistogramScope_dtor :: "TimedHistogramScope \<Rightarrow> state \<Rightarrow> error + state" where
  "TimedHistogramScope_dtor sc s =
     (case Base_Stop (base sc) s of
        Inl e \<Rightarrow> Inl e
      | Inr (b, s') \<Rightarrow>
          (if isolate sc \<noteq> None then Base_LogEnd b (isolate sc) s' else Inr s'))"

subsection \<open>OptionalTimedHistogramScope\<close>

datatype OptionalTimedHistogramScopeMode = TAKE_TIME | DONT_TAKE_TIME

record OptionalTimedHistogramScope =
  opt_base :: BaseTimedHistogramScope
  opt_isolate :: "isolate option"
  mode :: OptionalTimedHistogramScopeMode

definition OptionalTimedHistogramScope_ctor ::
  "hid option \<Rightarrow> isolate option \<Rightarrow> OptionalTimedHistogramScopeMode \<Rightarrow> state
     \<Rightarrow> error + (OptionalTimedHistogramScope \<times> state)" where
  "OptionalTimedHistogramScope_ctor h isol m s =
     (if m \<noteq> TAKE_TIME
      then Inr (\<lparr>opt_base = Base_ctor h, opt_isolate = isol, mode = m\<rparr>, s)
      else (case Base_Start (Base_ctor h) s of
              Inl e \<Rightarrow> Inl e
            | Inr b \<Rightarrow>
                (case Base_LogStart b isol s of
                   Inl e \<Rightarrow> Inl e
                 | Inr s' \<Rightarrow> Inr (\<lparr>opt_base = b, opt_isolate = isol, mode = m\<rparr>, s'))))"

definition OptionalTimedHistogramScope_dtor ::
  "OptionalTimedHistogramScope \<Rightarrow> state \<Rightarrow> error + state" where
  "OptionalTimedHistogramScope_dtor sc s =
     (if mode sc \<noteq> TAKE_TIME
      then Inr s
      else (case Base_Stop (opt_base sc) s of
              Inl e \<Rightarrow> Inl e
            | Inr (b, s') \<Rightarrow> Base_LogEnd b (opt_isolate sc) s'))"

subsection \<open>LazyTimedHistogramScope\<close>

definition LazyTimedHistogramScope_ctor :: "state \<Rightarrow> BaseTimedHistogramScope" where
  "LazyTimedHistogramScope_ctor s =
     (Base_ctor None)\<lparr>base_timer := timer_Start (HighResolutionNow s) (base_timer (Base_ctor None))\<rparr>"

definition set_histogram :: "hid option \<Rightarrow> BaseTimedHistogramScope \<Rightarrow> BaseTimedHistogramScope" where
  "set_histogram h b = b\<lparr>base_histogram := h\<rparr>"

definition LazyTimedHistogramScope_dtor :: "BaseTimedHistogramScope \<Rightarrow> state \<Rightarrow> error + state" where
  "LazyTimedHistogramScope_dtor b s =
     (case Base_Stop b s of Inl e \<Rightarrow> Inl e | Inr (b', s') \<Rightarrow> Inr s')"

subsection \<open>NestedTimedHistogramScope\<close>

definition set_timer :: "sid \<Rightarrow> ElapsedTimer \<Rightarrow> state \<Rightarrow> state" where
  "set_timer this t s = s\<lparr>scopes := (scopes s)(this := (scopes s this)\<lparr>timer := t\<rparr>)\<rparr>"

definition Nested_Pause :: "sid \<Rightarrow> ticks \<Rightarrow> state \<Rightarrow> state" where
  "Nested_Pause this now s = set_timer this (timer_Pause now (timer (scopes s this))) s"

definition Nested_Resume :: "sid \<Rightarrow> ticks \<Rightarrow> state \<Rightarrow> state" where
  "Nested_Resume this now s = set_timer this (timer_Resume now (timer (scopes s this))) s"

definition Nested_isolate :: "sid \<Rightarrow> state \<Rightarrow> isolate option" where
  "Nested_isolate this s = Some (counters_isolate s)"

definition Nested_LogStart :: "sid \<Rightarrow> state \<Rightarrow> state" where
  "Nested_LogStart this s =
     CallEventLogger (Nested_isolate this s) (name (histograms s (histogram (scopes s this)))) kStart s"

definition Nested_LogEnd :: "sid \<Rightarrow> state \<Rightarrow> state" where
  "Nested_LogEnd this s =
     CallEventLogger (Nested_isolate this s) (name (histograms s (histogram (scopes s this)))) kEnd s"

definition Nested_StartInteral :: "sid \<Rightarrow> state \<Rightarrow> state" where
  "Nested_StartInteral this s =
     (let (prev, s1) = Enter (histogram (scopes s this)) (Some this) s;
          s2 = s1\<lparr>scopes := (scopes s1)(this := (scopes s1 this)\<lparr>previous_scope := prev\<rparr>)\<rparr>;
          now = HighResolutionNow s2;
          s3 = (case previous_scope (scopes s2 this) of
                  Some p \<Rightarrow> Nested_Pause p now s2
                | None \<Rightarrow> s2)
      in set_timer this (timer_Start now (timer (scopes s3 this))) s3)"

definition Nested_Start :: "sid \<Rightarrow> state \<Rightarrow> state" where
  "Nested_Start this s =
     (let s1 = (if Enabled (histograms s (histogram (scopes s this)))
                then Nested_StartInteral this s else s)
      in Nested_LogStart this s1)"

definition RecordLongTaskTime :: "sid \<Rightarrow> ticks \<Rightarrow> state \<Rightarrow> state" where
  "RecordLongTaskTime this elapsed s =
     (if histogram (scopes s this) = execute s
      then s\<lparr>v8_execute_us := v8_execute_us s + elapsed\<rparr>
      else s)"

definition Nested_StopInternal :: "sid \<Rightarrow> state \<Rightarrow> state" where
  "Nested_StopInternal this s =
     (let s1 = Leave (histogram (scopes s this)) (previous_scope (scopes s this)) s;
          now = HighResolutionNow s1;
          elapsed = timer_Elapsed now (timer (scopes s1 this));
          s2 = AddTimedSample (histogram (scopes s1 this)) elapsed s1;
          s3 = (if long_task_record_mode (scopes s2 this) = kRecord
                then RecordLongTaskTime this elapsed s2 else s2)
      in (case previous_scope (scopes s3 this) of
            Some p \<Rightarrow> Nested_Resume p now s3
          | None \<Rightarrow> s3))"

definition Nested_Stop :: "sid \<Rightarrow> state \<Rightarrow> state" where
  "Nested_Stop this s =
     (let s1 = (if Enabled (histograms s (histogram (scopes s this)))
                then Nested_StopInternal this s else s)
      in Nested_LogEnd this s1)"

text \<open>
  The constructor initialises the timer (default constructed, not started), the histogram
  pointer and the record mode of the object at address \<open>this\<close>, and calls \<open>Start\<close>. It has
  no initialiser for \<^verbatim>\<open>previous_scope_\<close>: that member keeps what the memory held until
  \<open>StartInteral\<close> assigns it.
\<close>

definition NestedTimedHistogramScope_ctor ::
  "sid \<Rightarrow> hid \<Rightarrow> LongTaskRecordMode \<Rightarrow> state \<Rightarrow> state" where
  "NestedTimedHistogramScope_ctor this h m s =
     Nested_Start this
       (s\<lparr>scopes := (scopes s)(this := (scopes s this)
            \<lparr>timer := Stopped, histogram := h, long_task_record_mode := m\<rparr>)\<rparr>)"

definition NestedTimedHistogramScope_dtor :: "sid \<Rightarrow> state \<Rightarrow> state" where
  "NestedTimedHistogramScope_dtor this s = Nested_Stop this s"

definition LongTaskNestedTimedHistogramScope_ctor :: "sid \<Rightarrow> hid \<Rightarrow> state \<Rightarrow> state" where
  "LongTaskNestedTimedHistogramScope_ctor this h s = NestedTimedHistogramScope_ctor this h kRecord s"

subsection \<open>PauseNestedTimedHistogramScope\<close>

record PauseNestedTimedHistogramScope =
  pause_histogram :: hid
  pause_previous_scope :: "sid option"

definition Pause_Pause ::
  "PauseNestedTimedHistogramScope \<Rightarrow> state \<Rightarrow> PauseNestedTimedHistogramScope \<times> state" where
  "Pause_Pause ps s =
     (let (prev, s1) = Enter (pause_histogram ps) None s;
          ps1 = ps\<lparr>pause_previous_scope := prev\<rparr>
      in (case pause_previous_scope ps1 of
            Some p \<Rightarrow> (ps1, Nested_Pause p (HighResolutionNow s1) s1)
          | None \<Rightarrow> (ps1, s1)))"

definition Pause_Resume :: "PauseNestedTimedHistogramScope \<Rightarrow> state \<Rightarrow> error + state" where
  "Pause_Resume ps s =
     (let s1 = Leave (pause_histogram ps) (pause_previous_scope ps) s
      in (case pause_previous_scope ps of
            None \<Rightarrow> Inl NullDereference
          | Some p \<Rightarrow> Inr (Nested_Resume p (HighResolutionNow s1) s1)))"

definition PauseNestedTimedHistogramScope_ctor ::
  "hid \<Rightarrow> state \<Rightarrow> PauseNestedTimedHistogramScope \<times> state" where
  "PauseNestedTimedHistogramScope_ctor h s =
     (let ps = \<lparr>pause_histogram = h, pause_previous_scope = None\<rparr>
      in if Enabled (histograms s h) then Pause_Pause ps s else (ps, s))"

definition PauseNestedTimedHistogramScope_dtor ::
  "PauseNestedTimedHistogramScope \<Rightarrow> state \<Rightarrow> error + state" where
  "PauseNestedTimedHistogramScope_dtor ps s =
     (if pause_previous_scope ps \<noteq> None \<and> Enabled (histograms s (pause_histogram ps))
      then Pause_Resume ps s
      else Inr s)"

subsection \<open>Passing time and a sample state\<close>

text \<open>Work that takes \<open>d\<close> microseconds between two operations on scopes.\<close>

definition tick :: "nat \<Rightarrow> state \<Rightarrow> state" where
  "tick d s = s\<lparr>clock := clock s + int d\<rparr>"

text \<open>
  A state to evaluate the operations on: every histogram is idle and enabled, except
  histogram 1, which is disabled; histogram 0 is the \<^verbatim>\<open>execute()\<close> histogram.
\<close>

definition demo_histogram :: "hid \<Rightarrow> TimedHistogram" where
  "demo_histogram h = \<lparr>name = ''V8.Execute'', Enabled = (h \<noteq> 1), samples = [], current = None\<rparr>"

definition demo_scope :: NestedTimedHistogramScope where
  "demo_scope = \<lparr>timer = Stopped, histogram = 0, previous_scope = None, long_task_record_mode = kSkip\<rparr>"

definition demo_state :: state where
  "demo_state = \<lparr>clock = 0, histograms = demo_histogram, scopes = (\<lambda>a. demo_scope), log = [],
                  execute = 0, counters_isolate = 7, v8_execute_us = 0\<rparr>"

subsection \<open>Observations on results\<close>

text \<open>
  The calls made to the event logger once a constructor or a destructor has returned;
  \<open>None\<close> when it failed instead.
\<close>

definition ctor_log :: "error + ('a \<times> state) \<Rightarrow> log_event list option" where
  "ctor_log r = (case r of Inl e \<Rightarrow> None | Inr (x, s) \<Rightarrow> Some (log s))"

definition dtor_log :: "error + state \<Rightarrow> log_event list option" where
  "dtor_log r = (case r of Inl e \<Rightarrow> None | Inr s \<Rightarrow> Some (log s))"

text \<open>An optional scope seen as a plain scope: the same base members and isolate.\<close>

definition as_plain :: "OptionalTimedHistogramScope \<Rightarrow> TimedHistogramScope" where
  "as_plain sc = \<lparr>base = opt_base sc, isolate = opt_isolate sc\<rparr>"

definition plain_view ::
  "error + (OptionalTimedHistogramScope \<times> state) \<Rightarrow> error + (TimedHistogramScope \<times> state)" where
  "plain_view r = map_sum id (\<lambda>(sc, s). (as_plain sc, s)) r"

subsection \<open>A pause scope around unmeasured work\<close>

text \<open>
  The lifetime of a pause scope on histogram \<open>h\<close> that encloses \<open>d\<close> microseconds of
  work, and the same followed, \<open>d'\<close> microseconds later, by the destructor of the nested
  scope at address \<open>a\<close>.
\<close>

definition pause_lifetime :: "hid \<Rightarrow> nat \<Rightarrow> state \<Rightarrow> error + state" where
  "pause_lifetime h d s =
     (let (ps, s1) = PauseNestedTimedHistogramScope_ctor h s
      in PauseNestedTimedHistogramScope_dtor ps (tick d s1))"

definition paused_then_left :: "hid \<Rightarrow> sid \<Rightarrow> nat \<Rightarrow> nat \<Rightarrow> state \<Rightarrow> error + state" where
  "paused_then_left h a d d' s =
     (case pause_lifetime h d s of
        Inl e \<Rightarrow> Inl e
      | Inr s1 \<Rightarrow> Inr (NestedTimedHistogramScope_dtor a (tick d' s1)))"

definition samples_of :: "hid \<Rightarrow> error + state \<Rightarrow> ticks list option" where
  "samples_of h r = (case r of Inl e \<Rightarrow> None | Inr s \<Rightarrow> Some (samples (histograms s h)))"

subsection \<open>Well-nested scopes on one histogram\<close>

text \<open>
  Scopes are objects with automatic storage: a block of code declares a nested scope, runs
  its body and destroys the scope when the block is left, so that the scopes of one
  histogram are entered and left in LIFO order. A program is work that takes some time, or
  a nested scope of a given record mode around a sequence of programs. \<open>exec h a p\<close> runs
  \<open>p\<close> on histogram \<open>h\<close>; \<open>a\<close> is the address of the next scope object, one above the
  address of the scope that encloses it, as in a stack of frames.
\<close>

datatype prog = Work nat | Scope LongTaskRecordMode "prog list"

fun exec :: "hid \<Rightarrow> sid \<Rightarrow> prog \<Rightarrow> state \<Rightarrow> state"
  and exec_list :: "hid \<Rightarrow> sid \<Rightarrow> prog list \<Rightarrow> state \<Rightarrow> state" where
  "exec h a (Work d) s = tick d s"
| "exec h a (Scope m body) s =
     NestedTimedHistogramScope_dtor a
       (exec_list h (Suc a) body (NestedTimedHistogramScope_ctor a h m s))"
| "exec_list h a [] s = s"
| "exec_list h a (p # ps) s = exec_list h a ps (exec h a p s)"

text \<open>
  The samples that the spec expects of a program entered at time \<open>t\<close>, in the order in
  which the scopes are left: for each scope, (time at leave) - (time at enter) - the sum of
  the intervals during which a child scope was active.
\<close>

fun leave_time :: "ticks \<Rightarrow> prog \<Rightarrow> ticks"
  and leave_time_list :: "ticks \<Rightarrow> prog list \<Rightarrow> ticks" where
  "leave_time t (Work d) = t + int d"
| "leave_time t (Scope m body) = leave_time_list t body"
| "leave_time_list t [] = t"
| "leave_time_list t (p # ps) = leave_time_list (leave_time t p) ps"

fun paused_intervals :: "ticks \<Rightarrow> prog list \<Rightarrow> ticks" where
  "paused_intervals t [] = 0"
| "paused_intervals t (Work d # ps) = paused_intervals (t + int d) ps"
| "paused_intervals t (Scope m body # ps) =
     (leave_time_list t body - t) + paused_intervals (leave_time_list t body) ps"

fun expected_samples :: "ticks \<Rightarrow> prog \<Rightarrow> ticks list"
  and expected_samples_list :: "ticks \<Rightarrow> prog list \<Rightarrow> ticks list" where
  "expected_samples t (Work d) = []"
| "expected_samples t (Scope m body) =
     expected_samples_list t body @ [(leave_time_list t body - t) - paused_intervals t body]"
| "expected_samples_list t [] = []"
| "expected_samples_list t (p # ps) =
     expected_samples t p @ expected_samples_list (leave_time t p) ps"

subsection \<open>The scope stack and its invariant\<close>

text \<open>
  The scope stack of a histogram as the list of the scopes on it, top first: \<open>scope_chain s c
  ps\<close> says that following \<^verbatim>\<open>previous_scope_\<close> from \<open>c\<close> visits exactly \<open>ps\<close> and ends at
  null. \<open>exclusive\<close> says that of these scopes only the top one has an advancing timer and
  all others have a paused one.
\<close>

fun scope_chain :: "state \<Rightarrow> sid option \<Rightarrow> sid list \<Rightarrow> bool" where
  "scope_chain s c [] = (c = None)"
| "scope_chain s c (p # ps) = (c = Some p \<and> scope_chain s (previous_scope (scopes s p)) ps)"

fun exclusive :: "state \<Rightarrow> sid list \<Rightarrow> bool" where
  "exclusive s [] = True"
| "exclusive s (p # ps) =
     (is_advancing (timer (scopes s p)) \<and> list_all (\<lambda>q. is_paused (timer (scopes s q))) ps)"

definition stack_inv :: "hid \<Rightarrow> state \<Rightarrow> sid list \<Rightarrow> bool" where
  "stack_inv h s ps =
     (Enabled (histograms s h) \<and> scope_chain s (current (histograms s h)) ps \<and> distinct ps
      \<and> list_all (\<lambda>p. histogram (scopes s p) = h) ps \<and> exclusive s ps)"

text \<open>
  Nested scopes and pause scopes of one histogram together. A frame is a live scope
  object: a nested scope, given by its address, or a pause scope, which nothing points to
  and which is given by its value. \<open>live fs\<close> lists the nested scopes among the frames
  \<open>fs\<close> (the most recent frame first).
\<close>

datatype frame = NestedFrame sid | PauseFrame PauseNestedTimedHistogramScope

fun live :: "frame list \<Rightarrow> sid list" where
  "live [] = []"
| "live (NestedFrame p # fs) = p # live fs"
| "live (PauseFrame ps # fs) = live fs"

text \<open>
  \<open>linked h s c fs\<close>: the pointer \<open>c\<close> and the \<^verbatim>\<open>previous_scope_\<close> members of the frames
  lead from each frame to the next: to the nested scope right below it, or to null when a
  pause scope or nothing is below it; a pause scope has replaced the stack top by null.
  \<open>one_advancing s fs\<close>: the timer of the most recent frame, if that is a nested scope, is
  advancing, and the timers of all other live nested scopes are paused.
\<close>

fun linked :: "hid \<Rightarrow> state \<Rightarrow> sid option \<Rightarrow> frame list \<Rightarrow> bool" where
  "linked h s c [] = (c = None)"
| "linked h s c (NestedFrame p # fs) = (c = Some p \<and> linked h s (previous_scope (scopes s p)) fs)"
| "linked h s c (PauseFrame ps # fs) =
     (c = None \<and> pause_histogram ps = h \<and> linked h s (pause_previous_scope ps) fs)"

fun one_advancing :: "state \<Rightarrow> frame list \<Rightarrow> bool" where
  "one_advancing s [] = True"
| "one_advancing s (NestedFrame p # fs) =
     (is_advancing (timer (scopes s p)) \<and> list_all (\<lambda>q. is_paused (timer (scopes s q))) (live fs))"
| "one_advancing s (PauseFrame ps # fs) = list_all (\<lambda>q. is_paused (timer (scopes s q))) (live fs)"

definition frames_inv :: "hid \<Rightarrow> state \<Rightarrow> frame list \<Rightarrow> bool" where
  "frames_inv h s fs =
     (Enabled (histograms s h) \<and> linked h s (current (histograms s h)) fs \<and> distinct (live fs)
      \<and> list_all (\<lambda>p. histogram (scopes s p) = h) (live fs) \<and> one_advancing s fs)"

text \<open>
  The states that LIFO use of nested scopes and pause scopes on an enabled histogram \<open>h\<close>
  reaches from an idle stack, each with its frames: a nested scope is constructed at an
  address that no live nested scope has, the scope destroyed is the most recent live one,
  and time passes in between.
\<close>

inductive reachable :: "hid \<Rightarrow> state \<Rightarrow> frame list \<Rightarrow> bool" for h :: hid where
  idle: "Enabled (histograms s h) \<Longrightarrow> current (histograms s h) = None \<Longrightarrow> reachable h s []"
| enter: "reachable h s fs \<Longrightarrow> this \<notin> set (live fs) \<Longrightarrow>
          reachable h (NestedTimedHistogramScope_ctor this h m s) (NestedFrame this # fs)"
| leave: "reachable h s (NestedFrame this # fs) \<Longrightarrow>
          reachable h (NestedTimedHistogramScope_dtor this s) fs"
| pause: "reachable h s fs \<Longrightarrow> PauseNestedTimedHistogramScope_ctor h s = (ps, s') \<Longrightarrow>
          reachable h s' (PauseFrame ps # fs)"
| resume: "reachable h s (PauseFrame ps # fs) \<Longrightarrow> PauseNestedTimedHistogramScope_dtor ps s = Inr s' \<Longrightarrow>
          reachable h s' fs"
| work: "reachable h s fs \<Longrightarrow> reachable h (tick d s) fs"

subsection \<open>What running a program does\<close>

text \<open>
  The time that a program adds to the scope around it: work counts, a nested scope does
  not. \<open>elapsed_of s q\<close> is what the timer of the scope at \<open>q\<close> shows at the time of \<open>s\<close>.
\<close>

fun self_time :: "prog \<Rightarrow> ticks" where
  "self_time (Work d) = int d"
| "self_time (Scope m body) = 0"

definition elapsed_of :: "state \<Rightarrow> sid \<Rightarrow> ticks" where
  "elapsed_of s q = timer_Elapsed (clock s) (timer (scopes s q))"

text \<open>
  \<open>effect h a st s s' t' smp own\<close> relates the state \<open>s\<close> before a program that runs at
  address level \<open>a\<close> under the stack \<open>st\<close> to the state \<open>s'\<close> after it: the stack is as
  before, the time is \<open>t'\<close>, the samples \<open>smp\<close> were added to \<open>h\<close>, the scope objects below
  \<open>a\<close> are unchanged except for the timer of the top scope, and that timer shows \<open>own\<close>
  more.
\<close>

definition effect ::
  "hid \<Rightarrow> sid \<Rightarrow> sid list \<Rightarrow> state \<Rightarrow> state \<Rightarrow> ticks \<Rightarrow> ticks list \<Rightarrow> ticks \<Rightarrow> bool" where
  "effect h a st s s' t' smp own =
     (stack_inv h s' st \<and> clock s' = t'
      \<and> samples (histograms s' h) = samples (histograms s h) @ smp
      \<and> (\<forall>q<a. previous_scope (scopes s' q) = previous_scope (scopes s q)
                \<and> histogram (scopes s' q) = histogram (scopes s q)
                \<and> long_task_record_mode (scopes s' q) = long_task_record_mode (scopes s q)
                \<and> (timer (scopes s' q) = timer (scopes s q) \<or> (st \<noteq> [] \<and> q = hd st)))
      \<and> (st \<noteq> [] \<longrightarrow> elapsed_of s' (hd st) = elapsed_of s (hd st) + own))"

subsection \<open>The scenarios of the spec\<close>

text \<open>
  Scenario A: scope A from 0 to 50 around scope B from 10 to 30. Scenario D: A from 0 to
  100, B from 10 to 80 in A, C from 20 to 50 in B. \<open>two_deep\<close> is scenario A just after B
  was entered, \<open>suspended\<close> a pause scope constructed right then,
  \<open>left_under_pause\<close> the state after a third scope was entered under that pause scope
  and left 5 microseconds later. Scenario B starts with scope A entered at 0, at time 5.
\<close>

definition scenario_A :: prog where
  "scenario_A = Scope kSkip [Work 10, Scope kSkip [Work 20], Work 20]"

definition scenario_D :: prog where
  "scenario_D = Scope kSkip [Work 10, Scope kSkip [Work 10, Scope kSkip [Work 30], Work 30], Work 20]"

definition two_deep :: state where
  "two_deep = NestedTimedHistogramScope_ctor 1 0 kSkip (tick 10 (NestedTimedHistogramScope_ctor 0 0 kSkip demo_state))"

definition suspended :: "PauseNestedTimedHistogramScope \<times> state" where
  "suspended = PauseNestedTimedHistogramScope_ctor 0 two_deep"

definition left_under_pause :: state where
  "left_under_pause =
     NestedTimedHistogramScope_dtor 2 (tick 5 (NestedTimedHistogramScope_ctor 2 0 kSkip (snd suspended)))"

definition scenario_B_start :: state where
  "scenario_B_start = tick 5 (NestedTimedHistogramScope_ctor 0 0 kSkip demo_state)"

section \<open>Properties\<close>

subsection \<open>Basic facts about the store\<close>

lemma Enter_None_idle:
  "current (histograms s h) = None \<Longrightarrow> Enter h None s = (None, s)"
proof -
  assume c: "current (histograms s h) = None"
  have "(histograms s h)\<lparr>current := None\<rparr> = histograms s h" using c by simp
  then have "(histograms s)(h := (histograms s h)\<lparr>current := None\<rparr>) = histograms s" by simp
  then show ?thesis using c by (simp add: Enter_def)
qed

subsection \<open>Pause scope on an idle histogram\<close>

text \<open>
  C4. A pause scope constructed on an enabled histogram whose scope stack is empty captures
  no previous scope and leaves the state as it was; its destructor, in whatever state it
  runs, returns that state unchanged: the guard on \<^verbatim>\<open>previous_scope_\<close> skips \<open>Resume\<close>,
  which would have dereferenced the null pointer.
\<close>

theorem pause_on_empty_stack_skips_resume:
  assumes "Enabled (histograms s h)" and "current (histograms s h) = None"
  shows "PauseNestedTimedHistogramScope_ctor h s = (\<lparr>pause_histogram = h, pause_previous_scope = None\<rparr>, s)
       \<and> PauseNestedTimedHistogramScope_dtor \<lparr>pause_histogram = h, pause_previous_scope = None\<rparr> s' = Inr s'
       \<and> Pause_Resume \<lparr>pause_histogram = h, pause_previous_scope = None\<rparr> s' = Inl NullDereference"
  using assms
  by (simp add: PauseNestedTimedHistogramScope_ctor_def PauseNestedTimedHistogramScope_dtor_def
        Pause_Pause_def Pause_Resume_def Enter_None_idle)

theorem pause_on_empty_stack_skips_resume_witness:
  "Enabled (histograms demo_state 0) \<and> current (histograms demo_state 0) = None
   \<and> PauseNestedTimedHistogramScope_ctor 0 demo_state = (\<lparr>pause_histogram = 0, pause_previous_scope = None\<rparr>, demo_state)
   \<and> PauseNestedTimedHistogramScope_dtor \<lparr>pause_histogram = 0, pause_previous_scope = None\<rparr> (tick 20 demo_state)
       = Inr (tick 20 demo_state)"
proof -
  have e: "Enabled (histograms demo_state 0)" by (simp add: demo_state_def demo_histogram_def)
  have c: "current (histograms demo_state 0) = None" by (simp add: demo_state_def demo_histogram_def)
  show ?thesis using e c pause_on_empty_stack_skips_resume [OF e c, of "tick 20 demo_state"] by simp
qed

subsection \<open>The base scope on a given histogram\<close>

lemma Base_Start_Some:
  "Base_Start (Base_ctor (Some h)) s =
     Inr \<lparr>base_timer = (if Enabled (histograms s h) then Advancing (clock s) 0 else Stopped),
          base_histogram = Some h\<rparr>"
  by (simp add: Base_Start_def Base_ctor_def Base_StartInternal_def HighResolutionNow_def)

lemma Base_Stop_Some:
  "base_histogram b = Some h \<Longrightarrow> Base_Stop b s =
     Inr (if Enabled (histograms s h)
          then (b\<lparr>base_timer := Stopped\<rparr>, AddTimedSample h (timer_Elapsed (clock s) (base_timer b)) s)
          else (b, s))"
  by (simp add: Base_Stop_def Base_StopInternal_def HighResolutionNow_def)

lemma log_AddTimedSample: "log (AddTimedSample h d s) = log s"
  by (simp add: AddTimedSample_def)

lemma name_AddTimedSample: "name (histograms (AddTimedSample h d s) g) = name (histograms s g)"
  by (simp add: AddTimedSample_def)

subsection \<open>Nested scope on a disabled histogram\<close>

text \<open>
  C5. On a histogram that is disabled, constructing a nested scope at address \<open>this\<close> only
  initialises that object (its timer is default constructed and never started) and calls
  the event logger with the start event; destroying it only calls the event logger with
  the end event. The histograms, hence every sample list and every stack top, the timers of
  all other scopes, the clock and the long-task counter are what they were.
\<close>

theorem nested_scope_disabled:
  assumes "\<not> Enabled (histograms s h)"
  shows "NestedTimedHistogramScope_ctor this h m s =
           s\<lparr>scopes := (scopes s)(this := (scopes s this)
                \<lparr>timer := Stopped, histogram := h, long_task_record_mode := m\<rparr>),
             log := log s @ [(Some (counters_isolate s), name (histograms s h), kStart)]\<rparr>
       \<and> (histogram (scopes s this) = h \<longrightarrow>
            NestedTimedHistogramScope_dtor this s =
              s\<lparr>log := log s @ [(Some (counters_isolate s), name (histograms s h), kEnd)]\<rparr>)"
  using assms
  by (simp add: NestedTimedHistogramScope_ctor_def NestedTimedHistogramScope_dtor_def
        Nested_Start_def Nested_Stop_def Nested_LogStart_def Nested_LogEnd_def
        CallEventLogger_def Nested_isolate_def)

theorem nested_scope_disabled_witness:
  "\<not> Enabled (histograms demo_state 1)
   \<and> histograms (NestedTimedHistogramScope_ctor 0 1 kRecord demo_state) = histograms demo_state
   \<and> log (NestedTimedHistogramScope_ctor 0 1 kRecord demo_state) = [(Some 7, ''V8.Execute'', kStart)]"
proof -
  have d: "\<not> Enabled (histograms demo_state 1)" by (simp add: demo_state_def demo_histogram_def)
  show ?thesis using d nested_scope_disabled [OF d, of 0 kRecord]
    by (simp add: demo_state_def demo_histogram_def)
qed

subsection \<open>Optional scope and plain scope\<close>

text \<open>
  C7, as amended. With mode \<^verbatim>\<open>DONT_TAKE_TIME\<close> the constructor of an optional scope returns
  with the timer not started and the state untouched, and the destructor returns the state
  untouched: no sample, no log event, whatever the histogram pointer, its enabled flag and
  the isolate are. With mode \<^verbatim>\<open>TAKE_TIME\<close> and a non-null isolate, constructor and destructor
  do what those of a plain scope do.
\<close>

theorem optional_scope_mode_gate:
  "OptionalTimedHistogramScope_ctor h isol DONT_TAKE_TIME s =
     Inr (\<lparr>opt_base = \<lparr>base_timer = Stopped, base_histogram = h\<rparr>, opt_isolate = isol,
           mode = DONT_TAKE_TIME\<rparr>, s)
   \<and> OptionalTimedHistogramScope_dtor \<lparr>opt_base = b, opt_isolate = isol, mode = DONT_TAKE_TIME\<rparr> s' = Inr s'
   \<and> plain_view (OptionalTimedHistogramScope_ctor h (Some i) TAKE_TIME s)
       = TimedHistogramScope_ctor h (Some i) s
   \<and> OptionalTimedHistogramScope_dtor \<lparr>opt_base = b, opt_isolate = Some i, mode = TAKE_TIME\<rparr> s'
       = TimedHistogramScope_dtor \<lparr>base = b, isolate = Some i\<rparr> s'"
  by (auto simp add: OptionalTimedHistogramScope_ctor_def OptionalTimedHistogramScope_dtor_def
        TimedHistogramScope_ctor_def TimedHistogramScope_dtor_def as_plain_def plain_view_def
        Base_ctor_def split: sum.splits)

theorem optional_scope_mode_gate_witness:
  "OptionalTimedHistogramScope_ctor (Some 0) (Some 7) DONT_TAKE_TIME demo_state =
     Inr (\<lparr>opt_base = \<lparr>base_timer = Stopped, base_histogram = Some 0\<rparr>, opt_isolate = Some 7,
           mode = DONT_TAKE_TIME\<rparr>, demo_state)
   \<and> plain_view (OptionalTimedHistogramScope_ctor (Some 0) (Some 7) TAKE_TIME demo_state)
       = TimedHistogramScope_ctor (Some 0) (Some 7) demo_state"
  using optional_scope_mode_gate [of "Some 0" "Some 7" demo_state "Base_ctor (Some 0)" demo_state 7]
  by simp

text \<open>
  C7, as stated, fails at a null isolate: in mode \<^verbatim>\<open>TAKE_TIME\<close> the optional scope calls the
  event logger with the null isolate, the plain scope does not call it.
\<close>

theorem optional_take_time_differs_from_plain:
  "ctor_log (OptionalTimedHistogramScope_ctor (Some 0) None TAKE_TIME demo_state)
     = Some [(None, ''V8.Execute'', kStart)]
   \<and> ctor_log (TimedHistogramScope_ctor (Some 0) None demo_state) = Some []
   \<and> plain_view (OptionalTimedHistogramScope_ctor (Some 0) None TAKE_TIME demo_state)
       \<noteq> TimedHistogramScope_ctor (Some 0) None demo_state"
  by (simp add: OptionalTimedHistogramScope_ctor_def TimedHistogramScope_ctor_def ctor_log_def
        plain_view_def as_plain_def Base_Start_Some Base_LogStart_def CallEventLogger_def
        demo_state_def demo_histogram_def)

text \<open>
  C9. In mode \<^verbatim>\<open>TAKE_TIME\<close> an optional scope on a histogram calls the event logger once in
  its constructor (start) and once in its destructor (end), with the isolate it was given,
  be it null, and whether the histogram is enabled or not. A plain scope makes these calls
  only when its isolate is not null.
\<close>

theorem optional_logs_unconditionally:
  "ctor_log (OptionalTimedHistogramScope_ctor (Some h) isol TAKE_TIME s)
     = Some (log s @ [(isol, name (histograms s h), kStart)])
   \<and> dtor_log (OptionalTimedHistogramScope_dtor
        \<lparr>opt_base = \<lparr>base_timer = t, base_histogram = Some h\<rparr>, opt_isolate = isol, mode = TAKE_TIME\<rparr> s)
     = Some (log s @ [(isol, name (histograms s h), kEnd)])
   \<and> ctor_log (TimedHistogramScope_ctor (Some h) isol s)
     = Some (if isol = None then log s else log s @ [(isol, name (histograms s h), kStart)])
   \<and> dtor_log (TimedHistogramScope_dtor
        \<lparr>base = \<lparr>base_timer = t, base_histogram = Some h\<rparr>, isolate = isol\<rparr> s)
     = Some (if isol = None then log s else log s @ [(isol, name (histograms s h), kEnd)])"
  by (simp add: OptionalTimedHistogramScope_ctor_def OptionalTimedHistogramScope_dtor_def
        TimedHistogramScope_ctor_def TimedHistogramScope_dtor_def ctor_log_def dtor_log_def
        Base_Start_Some Base_Stop_Some Base_LogStart_def Base_LogEnd_def CallEventLogger_def
        log_AddTimedSample name_AddTimedSample)

theorem optional_logs_unconditionally_witness:
  "ctor_log (OptionalTimedHistogramScope_ctor (Some 1) None TAKE_TIME demo_state)
     = Some [(None, ''V8.Execute'', kStart)]
   \<and> ctor_log (TimedHistogramScope_ctor (Some 1) None demo_state) = Some []"
  using optional_logs_unconditionally [of 1 None demo_state Stopped]
  by (simp add: demo_state_def demo_histogram_def)

subsection \<open>Lazy scope\<close>

text \<open>
  C8. The constructor of a lazy scope starts the timer at once and sets no histogram. The
  destructor has no guard of its own: it always calls \<open>Stop\<close>, the stop-and-record step of
  the base class. On a scope that was never given a histogram (or was given a null one)
  that call fails on the null pointer; it does not return normally with the state
  unchanged. On a scope that was given a histogram the call records the time elapsed since
  construction as a sample of that histogram; as for every scope, \<open>Stop\<close> records only when
  the histogram is enabled.
\<close>

theorem lazy_scope:
  "LazyTimedHistogramScope_ctor s0 = \<lparr>base_timer = Advancing (clock s0) 0, base_histogram = None\<rparr>
   \<and> LazyTimedHistogramScope_dtor (LazyTimedHistogramScope_ctor s0) s = Inl NullDereference
   \<and> LazyTimedHistogramScope_dtor (set_histogram None (LazyTimedHistogramScope_ctor s0)) s = Inl NullDereference
   \<and> LazyTimedHistogramScope_dtor (set_histogram (Some h) (LazyTimedHistogramScope_ctor s0)) s
       = Inr (if Enabled (histograms s h) then AddTimedSample h (clock s - clock s0) s else s)"
  by (simp add: LazyTimedHistogramScope_ctor_def LazyTimedHistogramScope_dtor_def set_histogram_def
        Base_ctor_def Base_Stop_def Base_StopInternal_def HighResolutionNow_def)

theorem lazy_scope_witness:
  "LazyTimedHistogramScope_dtor (LazyTimedHistogramScope_ctor demo_state) (tick 30 demo_state)
     = Inl NullDereference
   \<and> LazyTimedHistogramScope_dtor (set_histogram (Some 0) (LazyTimedHistogramScope_ctor demo_state))
        (tick 30 demo_state)
       = Inr (AddTimedSample 0 30 (tick 30 demo_state))"
proof -
  note t = lazy_scope [of demo_state "tick 30 demo_state" 0]
  have e: "Enabled (histograms (tick 30 demo_state) 0)"
    by (simp add: demo_state_def demo_histogram_def tick_def)
  have c: "clock (tick 30 demo_state) - clock demo_state = 30"
    by (simp add: demo_state_def tick_def)
  have a: "LazyTimedHistogramScope_dtor (LazyTimedHistogramScope_ctor demo_state) (tick 30 demo_state)
             = Inl NullDereference"
    using t by (rule conjunct2 [THEN conjunct1])
  have b: "LazyTimedHistogramScope_dtor (set_histogram (Some 0) (LazyTimedHistogramScope_ctor demo_state))
             (tick 30 demo_state)
       = Inr (if Enabled (histograms (tick 30 demo_state) 0)
              then AddTimedSample 0 (clock (tick 30 demo_state) - clock demo_state) (tick 30 demo_state)
              else tick 30 demo_state)"
    using t by (rule conjunct2 [THEN conjunct2, THEN conjunct2])
  show ?thesis using a b e c by simp
qed

subsection \<open>Unfolding the operations\<close>

lemmas nested_defs =
  NestedTimedHistogramScope_ctor_def NestedTimedHistogramScope_dtor_def
  LongTaskNestedTimedHistogramScope_ctor_def
  Nested_Start_def Nested_Stop_def Nested_StartInteral_def Nested_StopInternal_def
  Nested_LogStart_def Nested_LogEnd_def Nested_isolate_def Nested_Pause_def Nested_Resume_def
  RecordLongTaskTime_def set_timer_def Enter_def Leave_def AddTimedSample_def
  CallEventLogger_def HighResolutionNow_def

lemmas pause_defs =
  PauseNestedTimedHistogramScope_ctor_def PauseNestedTimedHistogramScope_dtor_def
  Pause_Pause_def Pause_Resume_def

subsection \<open>The long-task counter\<close>

lemma v8_AddTimedSample: "v8_execute_us (AddTimedSample h d s) = v8_execute_us s"
  by (simp add: AddTimedSample_def)

lemma v8_Base_Stop: "Base_Stop b s = Inr (b', s') \<Longrightarrow> v8_execute_us s' = v8_execute_us s"
  by (auto simp add: Base_Stop_def Base_StopInternal_def v8_AddTimedSample split: option.splits if_splits)

lemma v8_Base_LogEnd: "Base_LogEnd b isol s = Inr s' \<Longrightarrow> v8_execute_us s' = v8_execute_us s"
  by (auto simp add: Base_LogEnd_def CallEventLogger_def split: option.splits)

lemma v8_Base_LogStart: "Base_LogStart b isol s = Inr s' \<Longrightarrow> v8_execute_us s' = v8_execute_us s"
  by (auto simp add: Base_LogStart_def CallEventLogger_def split: option.splits)

lemma v8_plain_dtor: "TimedHistogramScope_dtor sc s = Inr s' \<Longrightarrow> v8_execute_us s' = v8_execute_us s"
  by (fastforce simp add: TimedHistogramScope_dtor_def split: sum.splits if_splits prod.splits dest: v8_Base_Stop v8_Base_LogEnd)

lemma v8_optional_dtor: "OptionalTimedHistogramScope_dtor sc s = Inr s' \<Longrightarrow> v8_execute_us s' = v8_execute_us s"
  by (fastforce simp add: OptionalTimedHistogramScope_dtor_def split: sum.splits if_splits prod.splits dest: v8_Base_Stop v8_Base_LogEnd)

lemma v8_lazy_dtor: "LazyTimedHistogramScope_dtor b s = Inr s' \<Longrightarrow> v8_execute_us s' = v8_execute_us s"
  by (auto simp add: LazyTimedHistogramScope_dtor_def split: sum.splits dest: v8_Base_Stop)

lemma v8_pause_dtor: "PauseNestedTimedHistogramScope_dtor ps s = Inr s' \<Longrightarrow> v8_execute_us s' = v8_execute_us s"
  by (auto simp add: PauseNestedTimedHistogramScope_dtor_def Pause_Resume_def Leave_def Nested_Resume_def
        set_timer_def Let_def split: option.splits if_splits)

lemma v8_pause_ctor: "v8_execute_us (snd (PauseNestedTimedHistogramScope_ctor h s)) = v8_execute_us s"
  by (auto simp add: PauseNestedTimedHistogramScope_ctor_def Pause_Pause_def Enter_def Nested_Pause_def
        set_timer_def Let_def split: option.splits)

lemma v8_plain_ctor: "TimedHistogramScope_ctor h isol s = Inr (sc, s') \<Longrightarrow> v8_execute_us s' = v8_execute_us s"
  by (auto simp add: TimedHistogramScope_ctor_def split: sum.splits if_splits dest: v8_Base_LogStart)

lemma v8_optional_ctor: "OptionalTimedHistogramScope_ctor h isol m s = Inr (sc, s') \<Longrightarrow> v8_execute_us s' = v8_execute_us s"
  by (auto simp add: OptionalTimedHistogramScope_ctor_def split: sum.splits if_splits dest: v8_Base_LogStart)

lemma v8_nested_ctor: "v8_execute_us (NestedTimedHistogramScope_ctor this h m s) = v8_execute_us s"
  by (auto simp add: NestedTimedHistogramScope_ctor_def Nested_Start_def Nested_StartInteral_def Nested_LogStart_def
       CallEventLogger_def Enter_def Nested_Pause_def set_timer_def Let_def split: option.splits)

lemma v8_nested_dtor:
  "v8_execute_us (NestedTimedHistogramScope_dtor this s) =
     v8_execute_us s +
       (if Enabled (histograms s (histogram (scopes s this)))
           \<and> long_task_record_mode (scopes s this) = kRecord
           \<and> histogram (scopes s this) = execute s
        then timer_Elapsed (clock s) (timer (scopes s this)) else 0)"
  by (auto simp add: NestedTimedHistogramScope_dtor_def Nested_Stop_def Nested_StopInternal_def Nested_LogEnd_def
       CallEventLogger_def Leave_def Nested_Resume_def set_timer_def Let_def AddTimedSample_def
       RecordLongTaskTime_def HighResolutionNow_def split: option.splits)

lemma samples_nested_dtor:
  "Enabled (histograms s (histogram (scopes s this))) \<Longrightarrow>
   samples (histograms (NestedTimedHistogramScope_dtor this s) (histogram (scopes s this)))
     = samples (histograms s (histogram (scopes s this))) @ [timer_Elapsed (clock s) (timer (scopes s this))]"
  by (auto simp add: NestedTimedHistogramScope_dtor_def Nested_Stop_def Nested_StopInternal_def Nested_LogEnd_def
       CallEventLogger_def Leave_def Nested_Resume_def set_timer_def Let_def AddTimedSample_def
       RecordLongTaskTime_def HighResolutionNow_def split: option.splits)

text \<open>
  C6. The destructor of a nested scope adds to \<^verbatim>\<open>v8_execute_us\<close> exactly the elapsed time
  it records as the sample, and only when the histogram is enabled (so that \<open>StopInternal\<close>
  runs), the record mode is \<^verbatim>\<open>kRecord\<close> and the histogram is the \<^verbatim>\<open>execute()\<close> histogram of
  its counters; otherwise it adds nothing. No other constructor or destructor of the header
  changes the counter.
\<close>

theorem long_task_counter:
  "v8_execute_us (NestedTimedHistogramScope_dtor this s) =
     v8_execute_us s +
       (if Enabled (histograms s (histogram (scopes s this)))
           \<and> long_task_record_mode (scopes s this) = kRecord
           \<and> histogram (scopes s this) = execute s
        then timer_Elapsed (clock s) (timer (scopes s this)) else 0)
   \<and> (Enabled (histograms s (histogram (scopes s this))) \<longrightarrow>
        samples (histograms (NestedTimedHistogramScope_dtor this s) (histogram (scopes s this)))
          = samples (histograms s (histogram (scopes s this)))
              @ [timer_Elapsed (clock s) (timer (scopes s this))])
   \<and> v8_execute_us (NestedTimedHistogramScope_ctor this h m s) = v8_execute_us s
   \<and> v8_execute_us (snd (PauseNestedTimedHistogramScope_ctor h s)) = v8_execute_us s
   \<and> (PauseNestedTimedHistogramScope_dtor ps s = Inr s1 \<longrightarrow> v8_execute_us s1 = v8_execute_us s)
   \<and> (TimedHistogramScope_ctor bh isol s = Inr (sc2, s2) \<longrightarrow> v8_execute_us s2 = v8_execute_us s)
   \<and> (TimedHistogramScope_dtor sc s = Inr s3 \<longrightarrow> v8_execute_us s3 = v8_execute_us s)
   \<and> (OptionalTimedHistogramScope_ctor bh isol om s = Inr (sc4, s4) \<longrightarrow> v8_execute_us s4 = v8_execute_us s)
   \<and> (OptionalTimedHistogramScope_dtor osc s = Inr s5 \<longrightarrow> v8_execute_us s5 = v8_execute_us s)
   \<and> (LazyTimedHistogramScope_dtor b s = Inr s6 \<longrightarrow> v8_execute_us s6 = v8_execute_us s)"
  using v8_nested_dtor [of this s] samples_nested_dtor [of s this] v8_nested_ctor [of this h m s]
    v8_pause_ctor [of h s] v8_pause_dtor [of ps s s1] v8_plain_ctor [of bh isol s sc2 s2]
    v8_plain_dtor [of sc s s3] v8_optional_ctor [of bh isol om s sc4 s4]
    v8_optional_dtor [of osc s s5] v8_lazy_dtor [of b s s6]
  by blast

theorem long_task_counter_witness:
  "v8_execute_us (NestedTimedHistogramScope_dtor 0 (tick 12 (LongTaskNestedTimedHistogramScope_ctor 0 0 demo_state))) = 12
   \<and> v8_execute_us (NestedTimedHistogramScope_dtor 0 (tick 12 (NestedTimedHistogramScope_ctor 0 0 kSkip demo_state))) = 0
   \<and> v8_execute_us (NestedTimedHistogramScope_dtor 0 (tick 12 (LongTaskNestedTimedHistogramScope_ctor 0 2 demo_state))) = 0"
  using long_task_counter [where this = 0 and s = "tick 12 (LongTaskNestedTimedHistogramScope_ctor 0 0 demo_state)",
          THEN conjunct1]
    long_task_counter [where this = 0 and s = "tick 12 (NestedTimedHistogramScope_ctor 0 0 kSkip demo_state)",
          THEN conjunct1]
    long_task_counter [where this = 0 and s = "tick 12 (LongTaskNestedTimedHistogramScope_ctor 0 2 demo_state)",
          THEN conjunct1]
  by (simp add: nested_defs tick_def demo_state_def demo_histogram_def demo_scope_def)

subsection \<open>What a pause scope changes\<close>

text \<open>
  C10. The constructor of a pause scope on an enabled histogram sets the histogram's stack
  top to null, remembers the former top and, when there is one, pauses that scope's timer;
  on a disabled histogram it changes nothing. The destructor, when a former top was
  captured and the histogram is enabled, sets the stack top back to it and resumes its
  timer; otherwise it changes nothing. Neither adds a sample to any histogram nor calls the
  event logger.
\<close>

theorem pause_scope_frame:
  "PauseNestedTimedHistogramScope_ctor h s =
     (if Enabled (histograms s h)
      then (\<lparr>pause_histogram = h, pause_previous_scope = current (histograms s h)\<rparr>,
            s\<lparr>histograms := (histograms s)(h := (histograms s h)\<lparr>current := None\<rparr>),
              scopes := (case current (histograms s h) of
                           None \<Rightarrow> scopes s
                         | Some p \<Rightarrow> (scopes s)(p := (scopes s p)
                              \<lparr>timer := timer_Pause (clock s) (timer (scopes s p))\<rparr>))\<rparr>)
      else (\<lparr>pause_histogram = h, pause_previous_scope = None\<rparr>, s))
   \<and> PauseNestedTimedHistogramScope_dtor ps s =
       Inr (case pause_previous_scope ps of
              None \<Rightarrow> s
            | Some p \<Rightarrow>
                if Enabled (histograms s (pause_histogram ps))
                then s\<lparr>histograms := (histograms s)(pause_histogram ps :=
                            (histograms s (pause_histogram ps))\<lparr>current := Some p\<rparr>),
                       scopes := (scopes s)(p := (scopes s p)
                            \<lparr>timer := timer_Resume (clock s) (timer (scopes s p))\<rparr>)\<rparr>
                else s)
   \<and> log (snd (PauseNestedTimedHistogramScope_ctor h s)) = log s
   \<and> samples (histograms (snd (PauseNestedTimedHistogramScope_ctor h s)) g) = samples (histograms s g)
   \<and> dtor_log (PauseNestedTimedHistogramScope_dtor ps s) = Some (log s)
   \<and> (PauseNestedTimedHistogramScope_dtor ps s = Inr s' \<longrightarrow>
        samples (histograms s' g) = samples (histograms s g))"
  by (auto simp add: pause_defs Enter_def Leave_def Nested_Pause_def Nested_Resume_def
        set_timer_def HighResolutionNow_def dtor_log_def split: option.splits)

theorem pause_scope_frame_witness:
  "dtor_log (PauseNestedTimedHistogramScope_dtor
       (fst (PauseNestedTimedHistogramScope_ctor 0 (NestedTimedHistogramScope_ctor 0 0 kSkip demo_state)))
       (snd (PauseNestedTimedHistogramScope_ctor 0 (NestedTimedHistogramScope_ctor 0 0 kSkip demo_state))))
     = Some [(Some 7, ''V8.Execute'', kStart)]
   \<and> samples (histograms (snd (PauseNestedTimedHistogramScope_ctor 0
         (NestedTimedHistogramScope_ctor 0 0 kSkip demo_state))) 0) = []"
  using pause_scope_frame [where h = 0 and g = 0
      and s = "NestedTimedHistogramScope_ctor 0 0 kSkip demo_state",
      THEN conjunct2, THEN conjunct2, THEN conjunct2, THEN conjunct1]
    pause_scope_frame [where g = 0
      and s = "snd (PauseNestedTimedHistogramScope_ctor 0 (NestedTimedHistogramScope_ctor 0 0 kSkip demo_state))"
      and ps = "fst (PauseNestedTimedHistogramScope_ctor 0 (NestedTimedHistogramScope_ctor 0 0 kSkip demo_state))",
      THEN conjunct2, THEN conjunct2, THEN conjunct2, THEN conjunct2, THEN conjunct1]
    pause_scope_frame [where h = 0 and s = "NestedTimedHistogramScope_ctor 0 0 kSkip demo_state",
      THEN conjunct2, THEN conjunct2, THEN conjunct1]
  by (simp add: nested_defs demo_state_def demo_histogram_def demo_scope_def)

subsection \<open>Effect of the nested constructor and destructor on an enabled histogram\<close>

lemma clock_nested_ctor: "clock (NestedTimedHistogramScope_ctor this h m s) = clock s"
  by (simp add: nested_defs Let_def split: option.splits)

lemma clock_nested_dtor: "clock (NestedTimedHistogramScope_dtor this s) = clock s"
  by (simp add: nested_defs Let_def split: option.splits)

lemma histograms_nested_ctor:
  "Enabled (histograms s h) \<Longrightarrow>
   histograms (NestedTimedHistogramScope_ctor this h m s)
     = (histograms s)(h := (histograms s h)\<lparr>current := Some this\<rparr>)"
  by (simp add: nested_defs Let_def split: option.splits)

lemma scopes_nested_ctor:
  "Enabled (histograms s h) \<Longrightarrow> current (histograms s h) \<noteq> Some this \<Longrightarrow>
   scopes (NestedTimedHistogramScope_ctor this h m s) q =
     (if q = this
      then \<lparr>timer = Advancing (clock s) 0, histogram = h,
            previous_scope = current (histograms s h), long_task_record_mode = m\<rparr>
      else if current (histograms s h) = Some q
      then (scopes s q)\<lparr>timer := timer_Pause (clock s) (timer (scopes s q))\<rparr>
      else scopes s q)"
  by (auto simp add: nested_defs Let_def split: option.splits)

lemma histograms_nested_dtor:
  "Enabled (histograms s (histogram (scopes s this))) \<Longrightarrow>
   histograms (NestedTimedHistogramScope_dtor this s)
     = (histograms s)(histogram (scopes s this) := (histograms s (histogram (scopes s this)))
         \<lparr>current := previous_scope (scopes s this),
          samples := samples (histograms s (histogram (scopes s this)))
                       @ [timer_Elapsed (clock s) (timer (scopes s this))]\<rparr>)"
  by (auto simp add: nested_defs Let_def split: option.splits)

lemma scopes_nested_dtor:
  "Enabled (histograms s (histogram (scopes s this))) \<Longrightarrow>
   scopes (NestedTimedHistogramScope_dtor this s) q =
     (if previous_scope (scopes s this) = Some q
      then (scopes s q)\<lparr>timer := timer_Resume (clock s) (timer (scopes s q))\<rparr>
      else scopes s q)"
  by (auto simp add: nested_defs Let_def split: option.splits)

subsection \<open>The stack invariant\<close>

lemma scope_chain_top:
  "scope_chain s c ps \<Longrightarrow> c = (case ps of [] \<Rightarrow> None | p # rest \<Rightarrow> Some p)"
  by (cases ps) auto

lemma is_paused_Pause: "is_advancing t \<Longrightarrow> is_paused (timer_Pause now t)"
  by (cases t) auto

lemma is_advancing_Resume: "is_paused t \<Longrightarrow> is_advancing (timer_Resume now t)"
  by (cases t) auto

lemma pause_ctor_effect:
  "Enabled (histograms s h) \<Longrightarrow>
   PauseNestedTimedHistogramScope_ctor h s =
     (\<lparr>pause_histogram = h, pause_previous_scope = current (histograms s h)\<rparr>,
      s\<lparr>histograms := (histograms s)(h := (histograms s h)\<lparr>current := None\<rparr>),
        scopes := (case current (histograms s h) of
                     None \<Rightarrow> scopes s
                   | Some p \<Rightarrow> (scopes s)(p := (scopes s p)
                        \<lparr>timer := timer_Pause (clock s) (timer (scopes s p))\<rparr>))\<rparr>)"
  by (auto simp add: pause_defs Enter_def Nested_Pause_def set_timer_def HighResolutionNow_def
        split: option.splits)

lemma pause_dtor_effect:
  "PauseNestedTimedHistogramScope_dtor ps s =
     Inr (case pause_previous_scope ps of
            None \<Rightarrow> s
          | Some p \<Rightarrow>
              if Enabled (histograms s (pause_histogram ps))
              then s\<lparr>histograms := (histograms s)(pause_histogram ps :=
                          (histograms s (pause_histogram ps))\<lparr>current := Some p\<rparr>),
                     scopes := (scopes s)(p := (scopes s p)
                          \<lparr>timer := timer_Resume (clock s) (timer (scopes s p))\<rparr>)\<rparr>
              else s)"
  by (auto simp add: pause_defs Leave_def Nested_Resume_def set_timer_def HighResolutionNow_def
        split: option.splits)

lemma linked_cong:
  "(\<And>p. p \<in> set (live fs) \<Longrightarrow> previous_scope (scopes s' p) = previous_scope (scopes s p)) \<Longrightarrow>
   linked h s' c fs = linked h s c fs"
  by (induction fs arbitrary: c rule: live.induct) auto

lemma linked_Some: "linked h s (Some p) fs \<Longrightarrow> \<exists>rest. fs = NestedFrame p # rest"
  by (cases fs rule: live.cases) auto

lemma all_paused_if_top_null:
  "one_advancing s fs \<Longrightarrow> linked h s None fs \<Longrightarrow> list_all (\<lambda>q. is_paused (timer (scopes s q))) (live fs)"
  by (cases fs rule: live.cases) auto

lemma frames_enter:
  assumes inv: "frames_inv h s fs" and fresh: "this \<notin> set (live fs)"
  shows "frames_inv h (NestedTimedHistogramScope_ctor this h m s) (NestedFrame this # fs)"
proof -
  let ?s' = "NestedTimedHistogramScope_ctor this h m s"
  from inv have en: "Enabled (histograms s h)"
    and ch: "linked h s (current (histograms s h)) fs"
    and di: "distinct (live fs)"
    and hi: "list_all (\<lambda>p. histogram (scopes s p) = h) (live fs)"
    and ex: "one_advancing s fs"
    by (simp_all add: frames_inv_def)
  from ch fresh have nt: "current (histograms s h) \<noteq> Some this"
    by (cases fs rule: live.cases) auto
  note sc = scopes_nested_ctor [OF en nt]
  note hs = histograms_nested_ctor [OF en]
  have prev: "\<And>p. p \<in> set (live fs) \<Longrightarrow> previous_scope (scopes ?s' p) = previous_scope (scopes s p)"
    using fresh by (auto simp add: sc)
  have 1: "Enabled (histograms ?s' h)" using en by (simp add: hs)
  have 2: "linked h ?s' (current (histograms ?s' h)) (NestedFrame this # fs)"
    using ch linked_cong [of fs ?s' s h, OF prev] by (simp add: hs sc)
  have 3: "distinct (live (NestedFrame this # fs))" using di fresh by simp
  have 4: "list_all (\<lambda>p. histogram (scopes ?s' p) = h) (live (NestedFrame this # fs))"
    using hi fresh by (auto simp add: sc list_all_iff)
  have 5: "list_all (\<lambda>q. is_paused (timer (scopes ?s' q))) (live fs)"
  proof (cases "current (histograms s h)")
    case None
    with ex ch have "list_all (\<lambda>q. is_paused (timer (scopes s q))) (live fs)"
      by (simp add: all_paused_if_top_null)
    then show ?thesis using fresh None by (auto simp add: sc list_all_iff)
  next
    case (Some p0)
    with ch obtain rest where fs: "fs = NestedFrame p0 # rest" using linked_Some by fastforce
    from fs ex have a0: "is_advancing (timer (scopes s p0))"
      and pr: "list_all (\<lambda>q. is_paused (timer (scopes s q))) (live rest)" by simp_all
    from fs di have d0: "p0 \<notin> set (live rest)" by simp
    from fs fresh have f0: "this \<noteq> p0" "this \<notin> set (live rest)" by auto
    show ?thesis using fs Some a0 pr d0 f0
      by (auto simp add: sc list_all_iff is_paused_Pause)
  qed
  have 6: "one_advancing ?s' (NestedFrame this # fs)" using 5 by (simp add: sc)
  show ?thesis using 1 2 3 4 6 by (simp add: frames_inv_def)
qed


lemma frames_leave:
  assumes inv: "frames_inv h s (NestedFrame this # fs)"
  shows "frames_inv h (NestedTimedHistogramScope_dtor this s) fs"
proof -
  let ?s' = "NestedTimedHistogramScope_dtor this s"
  from inv have hh: "histogram (scopes s this) = h"
    and en: "Enabled (histograms s h)"
    and ch: "linked h s (previous_scope (scopes s this)) fs"
    and di: "distinct (live fs)" "this \<notin> set (live fs)"
    and hi: "list_all (\<lambda>p. histogram (scopes s p) = h) (live fs)"
    and ex: "list_all (\<lambda>q. is_paused (timer (scopes s q))) (live fs)"
    by (simp_all add: frames_inv_def)
  from en hh have en': "Enabled (histograms s (histogram (scopes s this)))" by simp
  note sc = scopes_nested_dtor [OF en']
  note hs = histograms_nested_dtor [OF en']
  have prev: "\<And>p. p \<in> set (live fs) \<Longrightarrow> previous_scope (scopes ?s' p) = previous_scope (scopes s p)"
    by (auto simp add: sc)
  have 1: "Enabled (histograms ?s' h)" using en hh by (simp add: hs)
  have 2: "linked h ?s' (current (histograms ?s' h)) fs"
    using ch hh linked_cong [of fs ?s' s h, OF prev] by (simp add: hs)
  have 4: "list_all (\<lambda>p. histogram (scopes ?s' p) = h) (live fs)"
    using hi by (auto simp add: sc list_all_iff)
  have 5: "one_advancing ?s' fs"
  proof (cases "previous_scope (scopes s this)")
    case None
    then have same: "scopes ?s' = scopes s" by (auto simp add: sc)
    from ch None have "fs = [] \<or> (\<exists>ps rest. fs = PauseFrame ps # rest)"
      by (cases fs rule: live.cases) auto
    then show ?thesis using ex by (auto simp add: same)
  next
    case (Some p0)
    with ch obtain rest where fs: "fs = NestedFrame p0 # rest" using linked_Some by fastforce
    from fs ex have a0: "is_paused (timer (scopes s p0))"
      and pr: "list_all (\<lambda>q. is_paused (timer (scopes s q))) (live rest)" by simp_all
    from fs di have d0: "p0 \<notin> set (live rest)" by simp
    show ?thesis using fs Some a0 pr d0
      by (auto simp add: sc list_all_iff is_advancing_Resume)
  qed
  show ?thesis using 1 2 di(1) 4 5 by (simp add: frames_inv_def)
qed

lemma frames_pause:
  assumes inv: "frames_inv h s fs" and ctor: "PauseNestedTimedHistogramScope_ctor h s = (ps, s')"
  shows "frames_inv h s' (PauseFrame ps # fs)"
proof -
  from inv have en: "Enabled (histograms s h)"
    and ch: "linked h s (current (histograms s h)) fs"
    and di: "distinct (live fs)"
    and hi: "list_all (\<lambda>p. histogram (scopes s p) = h) (live fs)"
    and ex: "one_advancing s fs"
    by (simp_all add: frames_inv_def)
  from ctor pause_ctor_effect [OF en]
  have ps: "ps = \<lparr>pause_histogram = h, pause_previous_scope = current (histograms s h)\<rparr>"
    and hs: "histograms s' = (histograms s)(h := (histograms s h)\<lparr>current := None\<rparr>)"
    and sc: "scopes s' = (case current (histograms s h) of
                     None \<Rightarrow> scopes s
                   | Some p \<Rightarrow> (scopes s)(p := (scopes s p)
                        \<lparr>timer := timer_Pause (clock s) (timer (scopes s p))\<rparr>))"
    by auto
  have prev: "\<And>p. p \<in> set (live fs) \<Longrightarrow> previous_scope (scopes s' p) = previous_scope (scopes s p)"
    by (auto simp add: sc split: option.splits)
  have 1: "Enabled (histograms s' h)" using en by (simp add: hs)
  have 2: "linked h s' (current (histograms s' h)) (PauseFrame ps # fs)"
    using ch linked_cong [of fs s' s h, OF prev] by (simp add: hs ps)
  have 4: "list_all (\<lambda>p. histogram (scopes s' p) = h) (live fs)"
    using hi by (auto simp add: sc list_all_iff split: option.splits)
  have 5: "list_all (\<lambda>q. is_paused (timer (scopes s' q))) (live fs)"
  proof (cases "current (histograms s h)")
    case None
    with ex ch have "list_all (\<lambda>q. is_paused (timer (scopes s q))) (live fs)"
      by (simp add: all_paused_if_top_null)
    then show ?thesis using None by (simp add: sc)
  next
    case (Some p0)
    with ch obtain rest where fs: "fs = NestedFrame p0 # rest" using linked_Some by fastforce
    from fs ex have a0: "is_advancing (timer (scopes s p0))"
      and pr: "list_all (\<lambda>q. is_paused (timer (scopes s q))) (live rest)" by simp_all
    from fs di have d0: "p0 \<notin> set (live rest)" by simp
    show ?thesis using fs Some a0 pr d0
      by (auto simp add: sc list_all_iff is_paused_Pause)
  qed
  show ?thesis using 1 2 di 4 5 by (simp add: frames_inv_def)
qed

lemma frames_resume:
  assumes inv: "frames_inv h s (PauseFrame ps # fs)"
    and dtor: "PauseNestedTimedHistogramScope_dtor ps s = Inr s'"
  shows "frames_inv h s' fs"
proof -
  from inv have en: "Enabled (histograms s h)"
    and cu: "current (histograms s h) = None"
    and ph: "pause_histogram ps = h"
    and ch: "linked h s (pause_previous_scope ps) fs"
    and di: "distinct (live fs)"
    and hi: "list_all (\<lambda>p. histogram (scopes s p) = h) (live fs)"
    and ex: "list_all (\<lambda>q. is_paused (timer (scopes s q))) (live fs)"
    by (simp_all add: frames_inv_def)
  show ?thesis
  proof (cases "pause_previous_scope ps")
    case None
    with dtor have same: "s' = s" by (simp add: pause_dtor_effect)
    from ch None have "fs = [] \<or> (\<exists>ps rest. fs = PauseFrame ps # rest)"
      by (cases fs rule: live.cases) auto
    then have "one_advancing s fs" using ex by auto
    then show ?thesis using en cu ch None di hi by (simp add: same frames_inv_def)
  next
    case (Some p0)
    with ch obtain rest where fs: "fs = NestedFrame p0 # rest" using linked_Some by fastforce
    from dtor Some en ph
    have hs: "histograms s' = (histograms s)(h := (histograms s h)\<lparr>current := Some p0\<rparr>)"
      and sc: "scopes s' = (scopes s)(p0 := (scopes s p0)
                          \<lparr>timer := timer_Resume (clock s) (timer (scopes s p0))\<rparr>)"
      by (auto simp add: pause_dtor_effect)
    have prev: "\<And>p. p \<in> set (live fs) \<Longrightarrow> previous_scope (scopes s' p) = previous_scope (scopes s p)"
      by (auto simp add: sc)
    from fs ex have a0: "is_paused (timer (scopes s p0))"
      and pr: "list_all (\<lambda>q. is_paused (timer (scopes s q))) (live rest)" by simp_all
    from fs di have d0: "p0 \<notin> set (live rest)" by simp
    have 1: "Enabled (histograms s' h)" using en by (simp add: hs)
    have 2: "linked h s' (current (histograms s' h)) fs"
      using ch Some linked_cong [of fs s' s h, OF prev] by (simp add: hs)
    have 4: "list_all (\<lambda>p. histogram (scopes s' p) = h) (live fs)"
      using hi by (auto simp add: sc list_all_iff)
    have 5: "one_advancing s' fs" using fs a0 pr d0
      by (auto simp add: sc list_all_iff is_advancing_Resume)
    show ?thesis using 1 2 di 4 5 by (simp add: frames_inv_def)
  qed
qed

lemma frames_tick: "frames_inv h s fs \<Longrightarrow> frames_inv h (tick d s) fs"
proof -
  assume inv: "frames_inv h s fs"
  have "linked h (tick d s) c fs = linked h s c fs" for c
    by (rule linked_cong) (simp add: tick_def)
  moreover have "one_advancing (tick d s) fs = one_advancing s fs"
    by (cases fs rule: live.cases) (simp_all add: tick_def)
  ultimately show ?thesis using inv by (simp add: frames_inv_def tick_def)
qed

lemma reachable_inv: "reachable h s fs \<Longrightarrow> frames_inv h s fs"
proof (induction rule: reachable.induct)
  case (idle s)
  then show ?case by (simp add: frames_inv_def)
next
  case (enter s fs this m)
  then show ?case by (simp add: frames_enter)
next
  case (leave s this fs)
  then show ?case by (simp add: frames_leave)
next
  case (pause s fs ps s')
  then show ?case by (simp add: frames_pause)
next
  case (resume s ps fs s')
  then show ?case using frames_resume by blast
next
  case (work s fs d)
  then show ?case by (simp add: frames_tick)
qed

text \<open>The same for a stack of nested scopes only.\<close>

lemma live_map_Nested: "live (map NestedFrame ps) = ps"
  by (induction ps) simp_all

lemma linked_map_Nested: "linked h s c (map NestedFrame ps) = scope_chain s c ps"
  by (induction ps arbitrary: c) simp_all

lemma one_advancing_map_Nested: "one_advancing s (map NestedFrame ps) = exclusive s ps"
  by (cases ps) (simp_all add: live_map_Nested)

lemma stack_inv_frames: "stack_inv h s ps = frames_inv h s (map NestedFrame ps)"
  by (simp add: stack_inv_def frames_inv_def live_map_Nested linked_map_Nested one_advancing_map_Nested)

lemma enter_inv:
  "stack_inv h s ps \<Longrightarrow> this \<notin> set ps \<Longrightarrow>
   stack_inv h (NestedTimedHistogramScope_ctor this h m s) (this # ps)"
  using frames_enter [of h s "map NestedFrame ps" this m]
  by (simp add: stack_inv_frames live_map_Nested)

lemma leave_inv:
  "stack_inv h s (this # ps) \<Longrightarrow> stack_inv h (NestedTimedHistogramScope_dtor this s) ps"
  using frames_leave [of h s this "map NestedFrame ps"] by (simp add: stack_inv_frames)

lemma tick_inv: "stack_inv h s ps \<Longrightarrow> stack_inv h (tick d s) ps"
  using frames_tick [of h s "map NestedFrame ps" d] by (simp add: stack_inv_frames)

text \<open>States that the scenarios reach, and what they hold.\<close>

lemma reachable_two_deep: "reachable 0 two_deep [NestedFrame 1, NestedFrame 0]"
proof -
  have "reachable 0 demo_state []"
    by (rule reachable.idle) (simp_all add: demo_state_def demo_histogram_def)
  then have "reachable 0 (NestedTimedHistogramScope_ctor 0 0 kSkip demo_state) [NestedFrame 0]"
    by (rule reachable.enter) simp
  then have "reachable 0 (tick 10 (NestedTimedHistogramScope_ctor 0 0 kSkip demo_state)) [NestedFrame 0]"
    by (rule reachable.work)
  then show ?thesis
    unfolding two_deep_def by (rule reachable.enter) simp
qed

lemma reachable_suspended:
  "reachable 0 (snd suspended) [PauseFrame (fst suspended), NestedFrame 1, NestedFrame 0]"
proof -
  have "PauseNestedTimedHistogramScope_ctor 0 two_deep = (fst suspended, snd suspended)"
    by (simp add: suspended_def)
  with reachable_two_deep show ?thesis by (rule reachable.pause)
qed

lemma reachable_left_under_pause:
  "reachable 0 left_under_pause [PauseFrame (fst suspended), NestedFrame 1, NestedFrame 0]"
proof -
  have "reachable 0 (NestedTimedHistogramScope_ctor 2 0 kSkip (snd suspended))
          [NestedFrame 2, PauseFrame (fst suspended), NestedFrame 1, NestedFrame 0]"
    using reachable_suspended by (rule reachable.enter) simp
  then have "reachable 0 (tick 5 (NestedTimedHistogramScope_ctor 2 0 kSkip (snd suspended)))
          [NestedFrame 2, PauseFrame (fst suspended), NestedFrame 1, NestedFrame 0]"
    by (rule reachable.work)
  then show ?thesis unfolding left_under_pause_def by (rule reachable.leave)
qed

lemma suspended_values:
  "Enabled (histograms (snd suspended) 0) \<and> current (histograms (snd suspended) 0) = None
   \<and> timer (scopes (snd suspended) 1) = Paused 0 \<and> timer (scopes (snd suspended) 0) = Paused 10"
  by (simp add: suspended_def two_deep_def pause_defs nested_defs tick_def demo_state_def
        demo_histogram_def demo_scope_def)

lemma left_under_pause_values:
  "Enabled (histograms left_under_pause 0) \<and> current (histograms left_under_pause 0) = None
   \<and> timer (scopes left_under_pause 1) = Paused 0 \<and> timer (scopes left_under_pause 0) = Paused 10
   \<and> samples (histograms left_under_pause 0) = [5]"
  by (simp add: left_under_pause_def suspended_def two_deep_def pause_defs nested_defs tick_def
        demo_state_def demo_histogram_def demo_scope_def)

text \<open>
  C2, as amended. In every state that LIFO use of nested scopes and pause scopes on an
  enabled histogram reaches, the stack top and the \<^verbatim>\<open>previous_scope_\<close> pointers link the
  live scopes and each scope is live once. Whenever the stack top is a scope, which is the
  case exactly when the most recent live scope is a nested scope, that scope's timer is
  advancing and the timers of all other live scopes, its ancestors along the
  previous-chain among them, are paused. While a pause scope is the most recent live
  scope, the stack top is null and the timers of all live nested scopes are paused. The
  constructor of a nested scope, at an address that no live scope has, takes a state with
  this property to one with it, the new scope on top; the destructor of the most recent
  nested scope takes it to one with it for the remaining scopes.
\<close>

theorem exclusive_timer_invariant:
  "(reachable h s fs \<longrightarrow> frames_inv h s fs)
   \<and> (frames_inv h s fs \<and> this \<notin> set (live fs) \<longrightarrow>
        frames_inv h (NestedTimedHistogramScope_ctor this h m s) (NestedFrame this # fs))
   \<and> (frames_inv h s (NestedFrame this # fs) \<longrightarrow>
        frames_inv h (NestedTimedHistogramScope_dtor this s) fs)
   \<and> (frames_inv h s fs \<and> current (histograms s h) = Some p \<longrightarrow>
        (\<exists>rest. fs = NestedFrame p # rest
           \<and> linked h s (previous_scope (scopes s p)) rest
           \<and> is_advancing (timer (scopes s p))
           \<and> (\<forall>q\<in>set (live rest). is_paused (timer (scopes s q))
                                  \<and> \<not> is_advancing (timer (scopes s q)))))
   \<and> (frames_inv h s (NestedFrame p # fs) \<longrightarrow> current (histograms s h) = Some p)
   \<and> (frames_inv h s (PauseFrame ps # fs) \<longrightarrow>
        current (histograms s h) = None
        \<and> (\<forall>q\<in>set (live fs). is_paused (timer (scopes s q))
                              \<and> \<not> is_advancing (timer (scopes s q))))
   \<and> (frames_inv h s [] \<longrightarrow> current (histograms s h) = None)"
proof -
  have np: "is_paused t \<Longrightarrow> \<not> is_advancing t" for t by (cases t) auto
  have 4: "\<exists>rest. fs = NestedFrame p # rest
           \<and> linked h s (previous_scope (scopes s p)) rest
           \<and> is_advancing (timer (scopes s p))
           \<and> (\<forall>q\<in>set (live rest). is_paused (timer (scopes s q))
                                  \<and> \<not> is_advancing (timer (scopes s q)))"
    if inv: "frames_inv h s fs" and top: "current (histograms s h) = Some p"
  proof -
    from inv top have l: "linked h s (Some p) fs" by (simp add: frames_inv_def)
    then obtain rest where fs: "fs = NestedFrame p # rest" using linked_Some by blast
    with inv l show ?thesis by (auto simp add: frames_inv_def list_all_iff np)
  qed
  have 5: "frames_inv h s (NestedFrame p # fs) \<longrightarrow> current (histograms s h) = Some p"
    by (simp add: frames_inv_def)
  have 6: "frames_inv h s (PauseFrame ps # fs) \<longrightarrow>
        current (histograms s h) = None
        \<and> (\<forall>q\<in>set (live fs). is_paused (timer (scopes s q))
                              \<and> \<not> is_advancing (timer (scopes s q)))"
    by (auto simp add: frames_inv_def list_all_iff np)
  have 7: "frames_inv h s [] \<longrightarrow> current (histograms s h) = None"
    by (simp add: frames_inv_def)
  show ?thesis
    using reachable_inv [of h s fs] frames_enter [of h s fs this m] frames_leave [of h s this fs]
      4 5 6 7
    by blast
qed

theorem exclusive_timer_invariant_witness:
  "reachable 0 two_deep [NestedFrame 1, NestedFrame 0]
   \<and> frames_inv 0 two_deep [NestedFrame 1, NestedFrame 0]
   \<and> current (histograms two_deep 0) = Some 1
   \<and> timer (scopes two_deep 1) = Advancing 10 0 \<and> timer (scopes two_deep 0) = Paused 10
   \<and> reachable 0 (snd suspended) [PauseFrame (fst suspended), NestedFrame 1, NestedFrame 0]
   \<and> frames_inv 0 (snd suspended) [PauseFrame (fst suspended), NestedFrame 1, NestedFrame 0]
   \<and> timer (scopes (snd suspended) 1) = Paused 0 \<and> timer (scopes (snd suspended) 0) = Paused 10"
proof -
  note r = reachable_two_deep
  have i: "frames_inv 0 two_deep [NestedFrame 1, NestedFrame 0]"
    using r exclusive_timer_invariant [of 0 two_deep "[NestedFrame 1, NestedFrame 0]"] by blast
  have t: "current (histograms two_deep 0) = Some 1
           \<and> timer (scopes two_deep 1) = Advancing 10 0 \<and> timer (scopes two_deep 0) = Paused 10"
    by (simp add: two_deep_def nested_defs tick_def demo_state_def demo_histogram_def demo_scope_def)
  note r' = reachable_suspended
  have i': "frames_inv 0 (snd suspended) [PauseFrame (fst suspended), NestedFrame 1, NestedFrame 0]"
    using r' exclusive_timer_invariant [of 0 "snd suspended"
        "[PauseFrame (fst suspended), NestedFrame 1, NestedFrame 0]"] by blast
  show ?thesis using r i t r' i' suspended_values by simp
qed

text \<open>
  C2, as stated, fails while a pause scope is the most recent live scope: with the nested
  scopes at 1 and 0 live on the enabled histogram 0, no timer is advancing once a pause
  scope has been constructed, and none is advancing either after a nested scope that was
  entered under the pause scope has been left.
\<close>

theorem suspended_no_timer_advancing:
  "reachable 0 (snd suspended) [PauseFrame (fst suspended), NestedFrame 1, NestedFrame 0]
   \<and> Enabled (histograms (snd suspended) 0)
   \<and> current (histograms (snd suspended) 0) = None
   \<and> \<not> is_advancing (timer (scopes (snd suspended) 1))
   \<and> \<not> is_advancing (timer (scopes (snd suspended) 0))
   \<and> reachable 0 left_under_pause [PauseFrame (fst suspended), NestedFrame 1, NestedFrame 0]
   \<and> Enabled (histograms left_under_pause 0)
   \<and> current (histograms left_under_pause 0) = None
   \<and> \<not> is_advancing (timer (scopes left_under_pause 1))
   \<and> \<not> is_advancing (timer (scopes left_under_pause 0))"
  using reachable_suspended reachable_left_under_pause suspended_values left_under_pause_values
  by simp

subsection \<open>Self time of nested scopes\<close>

lemma effect_nil: "stack_inv h s st \<Longrightarrow> effect h a st s s (clock s) [] 0"
  by (simp add: effect_def)

lemma effect_tick:
  assumes inv: "stack_inv h s st"
  shows "effect h a st s (tick d s) (clock s + int d) [] (int d)"
proof -
  have adv: "st \<noteq> [] \<Longrightarrow> is_advancing (timer (scopes s (hd st)))"
    using inv by (cases st) (simp_all add: stack_inv_def)
  have el: "st \<noteq> [] \<Longrightarrow> elapsed_of (tick d s) (hd st) = elapsed_of s (hd st) + int d"
    using adv by (cases "timer (scopes s (hd st))") (simp_all add: elapsed_of_def tick_def)
  show ?thesis using tick_inv [OF inv, of d] el
    by (simp add: effect_def) (simp add: tick_def)
qed

lemma effect_seq:
  assumes 1: "effect h a st s s1 t1 smp1 own1" and 2: "effect h a st s1 s2 t2 smp2 own2"
  shows "effect h a st s s2 t2 (smp1 @ smp2) (own1 + own2)"
proof -
  have fr: "timer (scopes s2 q) = timer (scopes s q) \<or> (st \<noteq> [] \<and> q = hd st)" if "q < a" for q
  proof (cases "st \<noteq> [] \<and> q = hd st")
    case True
    then show ?thesis by simp
  next
    case False
    with 1 that have "timer (scopes s1 q) = timer (scopes s q)" unfolding effect_def by blast
    moreover from False 2 that have "timer (scopes s2 q) = timer (scopes s1 q)" unfolding effect_def by blast
    ultimately show ?thesis by simp
  qed
  show ?thesis using 1 2 fr unfolding effect_def by simp
qed


lemma effect_scope:
  assumes inv: "stack_inv h s st" and low: "\<forall>q\<in>set st. q < a"
    and body: "effect h (Suc a) (a # st) (NestedTimedHistogramScope_ctor a h m s) s2 t' smp own"
  shows "effect h a st s (NestedTimedHistogramScope_dtor a s2) t' (smp @ [own]) 0"
proof -
  let ?s1 = "NestedTimedHistogramScope_ctor a h m s"
  let ?s3 = "NestedTimedHistogramScope_dtor a s2"
  from inv have en: "Enabled (histograms s h)"
    and ch: "scope_chain s (current (histograms s h)) st"
    and ex: "exclusive s st"
    by (simp_all add: stack_inv_def)
  from low have fresh: "a \<notin> set st" by auto
  from ch have cur: "current (histograms s h) = (case st of [] \<Rightarrow> None | p # rest \<Rightarrow> Some p)"
    by (rule scope_chain_top)
  from cur fresh have nt: "current (histograms s h) \<noteq> Some a" by (cases st) auto
  note sc1 = scopes_nested_ctor [OF en nt]
  note hs1 = histograms_nested_ctor [OF en]
  from body have inv2: "stack_inv h s2 (a # st)"
    and ck2: "clock s2 = t'"
    and sm2: "samples (histograms s2 h) = samples (histograms ?s1 h) @ smp"
    and fr2: "\<And>q. q < Suc a \<Longrightarrow> previous_scope (scopes s2 q) = previous_scope (scopes ?s1 q)
                \<and> histogram (scopes s2 q) = histogram (scopes ?s1 q)
                \<and> long_task_record_mode (scopes s2 q) = long_task_record_mode (scopes ?s1 q)
                \<and> (timer (scopes s2 q) = timer (scopes ?s1 q) \<or> q = a)"
    and el2: "elapsed_of s2 a = elapsed_of ?s1 a + own"
    by (simp_all add: effect_def)
  have el1: "elapsed_of ?s1 a = 0"
    by (simp add: elapsed_of_def sc1 clock_nested_ctor)
  from inv2 have h2: "histogram (scopes s2 a) = h" and en2: "Enabled (histograms s2 h)"
    by (simp_all add: stack_inv_def)
  from en2 h2 have en2': "Enabled (histograms s2 (histogram (scopes s2 a)))" by simp
  note sc3 = scopes_nested_dtor [OF en2']
  note hs3 = histograms_nested_dtor [OF en2']
  have pv2: "previous_scope (scopes s2 a) = current (histograms s h)"
    using fr2 [of a] by (simp add: sc1)
  have A: "stack_inv h ?s3 st" using inv2 by (rule leave_inv)
  have B: "clock ?s3 = t'" using ck2 by (simp add: clock_nested_dtor)
  have C: "samples (histograms ?s3 h) = samples (histograms s h) @ (smp @ [own])"
    using sm2 el2 el1 h2 by (simp add: hs3 hs1 elapsed_of_def)
  have D: "previous_scope (scopes ?s3 q) = previous_scope (scopes s q)
         \<and> histogram (scopes ?s3 q) = histogram (scopes s q)
         \<and> long_task_record_mode (scopes ?s3 q) = long_task_record_mode (scopes s q)
         \<and> (timer (scopes ?s3 q) = timer (scopes s q) \<or> (st \<noteq> [] \<and> q = hd st))" if q: "q < a" for q
  proof -
    from q have qa: "q \<noteq> a" "q < Suc a" by simp_all
    have f3: "previous_scope (scopes ?s3 q) = previous_scope (scopes s2 q)
         \<and> histogram (scopes ?s3 q) = histogram (scopes s2 q)
         \<and> long_task_record_mode (scopes ?s3 q) = long_task_record_mode (scopes s2 q)"
      by (simp add: sc3)
    have f1: "previous_scope (scopes ?s1 q) = previous_scope (scopes s q)
         \<and> histogram (scopes ?s1 q) = histogram (scopes s q)
         \<and> long_task_record_mode (scopes ?s1 q) = long_task_record_mode (scopes s q)"
      using qa by (simp add: sc1)
    have tm: "timer (scopes ?s3 q) = timer (scopes s q)" if ntop: "\<not> (st \<noteq> [] \<and> q = hd st)"
    proof -
      from ntop cur have nq: "current (histograms s h) \<noteq> Some q" by (cases st) auto
      have "timer (scopes ?s3 q) = timer (scopes s2 q)" using nq pv2 by (simp add: sc3)
      also have "\<dots> = timer (scopes ?s1 q)" using fr2 [OF qa(2)] qa(1) by simp
      also have "\<dots> = timer (scopes s q)" using nq qa(1) by (simp add: sc1)
      finally show ?thesis .
    qed
    show ?thesis using f3 f1 fr2 [OF qa(2)] tm by auto
  qed
  have E: "elapsed_of ?s3 (hd st) = elapsed_of s (hd st) + 0" if ne: "st \<noteq> []"
  proof -
    from ne obtain p0 rest where st: "st = p0 # rest" by (cases st) auto
    with cur have c0: "current (histograms s h) = Some p0" by simp
    from st low have p0a: "p0 < a" by simp
    then have qa: "p0 \<noteq> a" "p0 < Suc a" by simp_all
    from st ex have "is_advancing (timer (scopes s p0))" by simp
    then obtain x acc where t0: "timer (scopes s p0) = Advancing x acc"
      by (cases "timer (scopes s p0)") auto
    have t1: "timer (scopes ?s1 p0) = Paused (acc + (clock s - x))"
      using c0 qa(1) t0 by (simp add: sc1)
    have t2: "timer (scopes s2 p0) = Paused (acc + (clock s - x))"
      using fr2 [OF qa(2)] qa(1) t1 by simp
    have t3: "timer (scopes ?s3 p0) = Advancing (clock s2) (acc + (clock s - x))"
      using pv2 c0 t2 by (simp add: sc3)
    show ?thesis using st t3 t0 by (simp add: elapsed_of_def clock_nested_dtor)
  qed
  show ?thesis using A B C D E unfolding effect_def by simp
qed


lemma own_time_Cons:
  "self_time p + (leave_time_list (leave_time t p) ps - leave_time t p
      - paused_intervals (leave_time t p) ps)
   = leave_time_list t (p # ps) - t - paused_intervals t (p # ps)"
  by (cases p) simp_all

lemma exec_effect:
  "(\<forall>st. stack_inv h s st \<longrightarrow> (\<forall>q\<in>set st. q < a) \<longrightarrow>
      effect h a st s (exec h a p s) (leave_time (clock s) p) (expected_samples (clock s) p)
        (self_time p))"
  "(\<forall>st. stack_inv h s st \<longrightarrow> (\<forall>q\<in>set st. q < a) \<longrightarrow>
      effect h a st s (exec_list h a ps s) (leave_time_list (clock s) ps)
        (expected_samples_list (clock s) ps)
        (leave_time_list (clock s) ps - clock s - paused_intervals (clock s) ps))"
proof (induction h a p s and h a ps s rule: exec_exec_list.induct)
  case (1 h a d s)
  show ?case by (simp add: effect_tick)
next
  case (2 h a m body s)
  show ?case
  proof (intro allI impI)
    fix st
    assume inv: "stack_inv h s st" and low: "\<forall>q\<in>set st. q < a"
    let ?s1 = "NestedTimedHistogramScope_ctor a h m s"
    from low have fresh: "a \<notin> set st" by auto
    have inv1: "stack_inv h ?s1 (a # st)" using inv fresh by (rule enter_inv)
    have low1: "\<forall>q\<in>set (a # st). q < Suc a" using low by auto
    from 2 inv1 low1
    have "effect h (Suc a) (a # st) ?s1 (exec_list h (Suc a) body ?s1)
            (leave_time_list (clock ?s1) body) (expected_samples_list (clock ?s1) body)
            (leave_time_list (clock ?s1) body - clock ?s1 - paused_intervals (clock ?s1) body)"
      by blast
    from effect_scope [OF inv low this]
    show "effect h a st s (exec h a (Scope m body) s) (leave_time (clock s) (Scope m body))
            (expected_samples (clock s) (Scope m body)) (self_time (Scope m body))"
      by (simp add: clock_nested_ctor)
  qed
next
  case (3 h a s)
  show ?case by (simp add: effect_nil)
next
  case (4 h a p ps s)
  show ?case
  proof (intro allI impI)
    fix st
    assume inv: "stack_inv h s st" and low: "\<forall>q\<in>set st. q < a"
    let ?s1 = "exec h a p s"
    from 4(1) inv low
    have e1: "effect h a st s ?s1 (leave_time (clock s) p) (expected_samples (clock s) p) (self_time p)"
      by blast
    then have inv1: "stack_inv h ?s1 st" and ck: "clock ?s1 = leave_time (clock s) p"
      by (simp_all add: effect_def)
    from 4(2) inv1 low
    have e2: "effect h a st ?s1 (exec_list h a ps ?s1) (leave_time_list (clock ?s1) ps)
            (expected_samples_list (clock ?s1) ps)
            (leave_time_list (clock ?s1) ps - clock ?s1 - paused_intervals (clock ?s1) ps)"
      by blast
    from effect_seq [OF e1 e2]
    show "effect h a st s (exec_list h a (p # ps) s) (leave_time_list (clock s) (p # ps))
            (expected_samples_list (clock s) (p # ps))
            (leave_time_list (clock s) (p # ps) - clock s - paused_intervals (clock s) (p # ps))"
      using own_time_Cons [of p "clock s" ps] by (simp add: ck)
  qed
qed

text \<open>
  C1. A well-nested program of nested scopes on an enabled histogram, run from a state in
  which the stack invariant holds, adds to the histogram one sample per scope, in the
  order in which the scopes are left, and each sample is (time at leave) - (time at enter)
  - the sum of the intervals during which a child scope was active. The samples come from
  the scopes' own timers, paused when a child is entered and resumed when it is left.
  In scenario A the samples are 20 for B and 30 for A; in scenario D, 30, 40 and 30.
\<close>

theorem nested_scopes_record_self_time:
  assumes "stack_inv h s st" and "\<forall>q\<in>set st. q < a"
  shows "samples (histograms (exec h a p s) h) = samples (histograms s h) @ expected_samples (clock s) p
       \<and> clock (exec h a p s) = leave_time (clock s) p
       \<and> stack_inv h (exec h a p s) st"
  using exec_effect(1) [of h s a p] assms by (simp add: effect_def)

lemma demo_state_idle: "stack_inv 0 demo_state []"
  by (simp add: stack_inv_def demo_state_def demo_histogram_def)

theorem nested_scopes_record_self_time_witness:
  "stack_inv 0 demo_state [] \<and> samples (histograms (exec 0 0 scenario_A demo_state) 0) = [20, 30]
   \<and> samples (histograms (exec 0 0 scenario_D demo_state) 0) = [30, 40, 30]"
proof -
  have i: "stack_inv 0 demo_state []" by (rule demo_state_idle)
  have l: "\<forall>q\<in>set ([]::sid list). q < 0" by simp
  have c: "clock demo_state = 0" "samples (histograms demo_state 0) = []"
    by (simp_all add: demo_state_def demo_histogram_def)
  show ?thesis
    using i nested_scopes_record_self_time [OF i l, of scenario_A]
      nested_scopes_record_self_time [OF i l, of scenario_D]
    by (simp add: c scenario_A_def scenario_D_def)
qed

subsection \<open>A pause scope under a running nested scope\<close>

text \<open>
  C3. When the nested scope at \<open>a\<close> is the top of the stack of an enabled histogram and its
  timer is advancing, the constructor of a pause scope pauses that timer and sets the
  stack top to null; the destructor, \<open>d\<close> microseconds later, puts \<open>a\<close> back on top and
  resumes its timer with the same accumulated time; and when \<open>a\<close> is left \<open>d'\<close>
  microseconds after that, the sample it records is the time since its timer was started
  minus \<open>d\<close>. In scenario B (enter at 0, pause from 5 to 25, leave at 40) the sample is 20.
\<close>

theorem pause_scope_excludes_interval:
  assumes en: "Enabled (histograms s h)" and top: "current (histograms s h) = Some a"
    and hh: "histogram (scopes s a) = h" and adv: "timer (scopes s a) = Advancing x acc"
  shows "timer (scopes (snd (PauseNestedTimedHistogramScope_ctor h s)) a) = Paused (acc + (clock s - x))
       \<and> current (histograms (snd (PauseNestedTimedHistogramScope_ctor h s)) h) = None
       \<and> (\<exists>s'. pause_lifetime h d s = Inr s'
              \<and> timer (scopes s' a) = Advancing (clock s + int d) (acc + (clock s - x))
              \<and> current (histograms s' h) = Some a)
       \<and> samples_of h (paused_then_left h a d d' s)
           = Some (samples (histograms s h) @ [acc + ((clock s + int d + int d') - x) - int d])"
  using assms
  by (simp add: pause_lifetime_def paused_then_left_def samples_of_def pause_defs nested_defs
        tick_def Let_def split: option.splits)

theorem pause_scope_excludes_interval_witness:
  "Enabled (histograms scenario_B_start 0) \<and> current (histograms scenario_B_start 0) = Some 0
   \<and> timer (scopes scenario_B_start 0) = Advancing 0 0 \<and> clock scenario_B_start = 5
   \<and> samples_of 0 (paused_then_left 0 0 20 15 scenario_B_start) = Some [20]"
proof -
  have en: "Enabled (histograms scenario_B_start 0)"
    and top: "current (histograms scenario_B_start 0) = Some 0"
    and hh: "histogram (scopes scenario_B_start 0) = 0"
    and adv: "timer (scopes scenario_B_start 0) = Advancing 0 0"
    and ck: "clock scenario_B_start = 5"
    and sm: "samples (histograms scenario_B_start 0) = []"
    by (simp_all add: scenario_B_start_def nested_defs tick_def demo_state_def demo_histogram_def)
  have "samples_of 0 (paused_then_left 0 0 20 15 scenario_B_start)
          = Some (samples (histograms scenario_B_start 0)
                    @ [0 + ((clock scenario_B_start + int 20 + int 15) - 0) - int 20])"
    using pause_scope_excludes_interval [OF en top hh adv, of 20 15] by blast
  then show ?thesis using en top adv ck sm by simp
qed

end
